theory Spec2Isabelle
  imports Main "HOL-Library.Sublist"
begin

section \<open>Data model of the room hub (src/main.py)\<close>

text \<open>
  The hub keeps seven module-level dictionaries and sets (main.py, lines 42-48) and talks to
  WebSocket objects. The embedding keeps the dictionaries as maps under their source names.
  A Python \<open>set\<close> of WebSocket objects is iterated by the code, so it is kept as a
  duplicate-free list (\<open>set_add\<close>, \<open>set_discard\<close>); the order of the list stands for
  the iteration order of the set, on which no statement below depends.
  A JSON value is the result of \<open>json.loads\<close>; the representation of a Python float is
  left open (type variable \<open>'f\<close>). An outbound message is a Python dict literal, kept as an
  association list in the order the source writes its keys.
\<close>

type_synonym room_id = string
type_synonym user_id = string
type_synonym ws = nat

datatype 'f json =
    JNull
  | JBool bool
  | JInt int
  | JFloat 'f
  | JStr string
  | JArr "'f json list"
  | JObj "(string \<times> 'f json) list"

type_synonym 'f event = "(string \<times> 'f json) list"

record user =
  uid :: user_id
  username :: string
  avatar_path :: string

text \<open>Calls made on WebSocket objects, in the order the hub makes them.\<close>

datatype 'f io =
    Sent ws "'f event"
  | SendFailed ws "'f event"
  | Closed ws nat

datatype exn = KeyError | SendError | RuntimeError

datatype http_error = Unauthorized401 | Forbidden403 | NotFound404

record 'f state =
  rooms_messages :: "room_id \<rightharpoonup> 'f event list"
  rooms_connections :: "room_id \<rightharpoonup> ws list"
  rooms_owner :: "room_id \<rightharpoonup> user_id"
  rooms_banned :: "room_id \<rightharpoonup> user_id set"
  rooms_user_sockets :: "room_id \<rightharpoonup> (user_id \<rightharpoonup> ws list)"
  rooms_user_meta :: "room_id \<rightharpoonup> (user_id \<rightharpoonup> string \<times> string)"
  rooms_deleted :: "room_id set"
  broken :: "ws set"
  wire :: "'f io list"

text \<open>
  \<open>broken\<close> is the environment's part of the state: the sockets on which \<open>send_json\<close>
  raises. \<open>wire\<close> records every \<open>send_json\<close> and \<open>close\<close> call.
\<close>

definition init_state :: "'f state" where
  "init_state = \<lparr> rooms_messages = Map.empty, rooms_connections = Map.empty,
     rooms_owner = Map.empty, rooms_banned = Map.empty, rooms_user_sockets = Map.empty,
     rooms_user_meta = Map.empty, rooms_deleted = {}, broken = {}, wire = [] \<rparr>"

text \<open>The external collaborators: the session table, \<open>uuid.UUID\<close>, \<open>json.loads\<close>, \<open>float\<close>.\<close>

record 'f env =
  session_user :: "string \<Rightarrow> user option"
  uuid_ok :: "string \<Rightarrow> bool"
  json_loads :: "string \<Rightarrow> 'f json option"
  float_of_int :: "int \<Rightarrow> 'f option"
  float_of_str :: "string \<Rightarrow> 'f option"
  float_is_zero :: "'f \<Rightarrow> bool"

subsection \<open>Python sets of sockets, and the \<open>.get(key, default)\<close> reads\<close>

definition set_add :: "'a \<Rightarrow> 'a list \<Rightarrow> 'a list" where
  "set_add x xs = (if x \<in> set xs then xs else xs @ [x])"

definition set_discard :: "'a \<Rightarrow> 'a list \<Rightarrow> 'a list" where
  "set_discard x xs = removeAll x xs"

definition conns_of :: "'f state \<Rightarrow> room_id \<Rightarrow> ws list" where
  "conns_of s r = (case rooms_connections s r of None \<Rightarrow> [] | Some cs \<Rightarrow> cs)"

definition history_of :: "'f state \<Rightarrow> room_id \<Rightarrow> 'f event list" where
  "history_of s r = (case rooms_messages s r of None \<Rightarrow> [] | Some h \<Rightarrow> h)"

definition banned_of :: "'f state \<Rightarrow> room_id \<Rightarrow> user_id set" where
  "banned_of s r = (case rooms_banned s r of None \<Rightarrow> {} | Some b \<Rightarrow> b)"

definition users_of :: "'f state \<Rightarrow> room_id \<Rightarrow> (user_id \<rightharpoonup> ws list)" where
  "users_of s r = (case rooms_user_sockets s r of None \<Rightarrow> Map.empty | Some m \<Rightarrow> m)"

definition socks_of :: "'f state \<Rightarrow> room_id \<Rightarrow> user_id \<Rightarrow> ws list" where
  "socks_of s r u = (case users_of s r u of None \<Rightarrow> [] | Some l \<Rightarrow> l)"

definition meta_of :: "'f state \<Rightarrow> room_id \<Rightarrow> (user_id \<rightharpoonup> string \<times> string)" where
  "meta_of s r = (case rooms_user_meta s r of None \<Rightarrow> Map.empty | Some m \<Rightarrow> m)"

subsection \<open>\<open>ensure_room\<close> (lines 194-199)\<close>

definition setdefault :: "('k \<rightharpoonup> 'v) \<Rightarrow> 'k \<Rightarrow> 'v \<Rightarrow> ('k \<rightharpoonup> 'v)" where
  "setdefault m k d = (case m k of None \<Rightarrow> m(k \<mapsto> d) | Some _ \<Rightarrow> m)"

definition ensure_room :: "room_id \<Rightarrow> 'f state \<Rightarrow> 'f state" where
  "ensure_room r s = s\<lparr>
     rooms_messages := setdefault (rooms_messages s) r [],
     rooms_connections := setdefault (rooms_connections s) r [],
     rooms_banned := setdefault (rooms_banned s) r {},
     rooms_user_sockets := setdefault (rooms_user_sockets s) r Map.empty,
     rooms_user_meta := setdefault (rooms_user_meta s) r Map.empty \<rparr>"

subsection \<open>\<open>broadcast\<close> (lines 202-210)\<close>

text \<open>
  The first loop sends to each connection of the set under \<open>try/except Exception\<close> and
  collects the failing ones in \<open>dead\<close>; the second loop discards them. A result is the state
  reached together with the exception that left the function, if any.

  \<open>send_loop\<close> and \<open>broadcast\<close> are the pass that no other handler interrupts: every
  \<open>await conn.send_json\<close> returns before any other handler runs, so the set the loop
  walks is the set it started with. The pass with other handlers running at its awaits is
  \<open>live_pass\<close> and \<open>broadcast_live\<close> below.
\<close>

definition send_json :: "ws \<Rightarrow> 'f event \<Rightarrow> 'f state \<Rightarrow> 'f io" where
  "send_json c m s = (if c \<in> broken s then SendFailed c m else Sent c m)"

fun send_loop :: "ws list \<Rightarrow> 'f event \<Rightarrow> ws list \<Rightarrow> 'f state \<Rightarrow> ws list \<times> 'f state" where
  "send_loop [] m dead s = (dead, s)"
| "send_loop (c # cs) m dead s =
     (if c \<in> broken s
      then send_loop cs m (dead @ [c]) (s\<lparr>wire := wire s @ [SendFailed c m]\<rparr>)
      else send_loop cs m dead (s\<lparr>wire := wire s @ [Sent c m]\<rparr>))"

fun discard_dead :: "room_id \<Rightarrow> ws list \<Rightarrow> 'f state \<Rightarrow> exn option \<times> 'f state" where
  "discard_dead r [] s = (None, s)"
| "discard_dead r (c # cs) s =
     (case rooms_connections s r of
        None \<Rightarrow> (Some KeyError, s)
      | Some xs \<Rightarrow>
          discard_dead r cs (s\<lparr>rooms_connections := (rooms_connections s)(r \<mapsto> set_discard c xs)\<rparr>))"

definition broadcast :: "room_id \<Rightarrow> 'f event \<Rightarrow> 'f state \<Rightarrow> exn option \<times> 'f state" where
  "broadcast r m s =
     (case send_loop (conns_of s r) m [] s of (dead, s1) \<Rightarrow> discard_dead r dead s1)"

subsection \<open>Classifying an inbound payload (lines 957-1058)\<close>

text \<open>
  \<open>dict_get\<close> is \<open>payload.get(key, default)\<close>; \<open>truthy\<close> is Python's truth value of
  a JSON value; \<open>to_float\<close> is \<open>float(x)\<close>, \<open>None\<close> where it raises.
\<close>

definition dict_get :: "(string \<times> 'f json) list \<Rightarrow> string \<Rightarrow> 'f json \<Rightarrow> 'f json" where
  "dict_get p k d = (case map_of p k of None \<Rightarrow> d | Some v \<Rightarrow> v)"

definition truthy :: "'f env \<Rightarrow> 'f json \<Rightarrow> bool" where
  "truthy env j =
     (case j of
        JNull \<Rightarrow> False
      | JBool b \<Rightarrow> b
      | JInt i \<Rightarrow> i \<noteq> 0
      | JFloat f \<Rightarrow> \<not> float_is_zero env f
      | JStr t \<Rightarrow> t \<noteq> []
      | JArr xs \<Rightarrow> xs \<noteq> []
      | JObj kvs \<Rightarrow> kvs \<noteq> [])"

definition to_float :: "'f env \<Rightarrow> 'f json \<Rightarrow> 'f option" where
  "to_float env j =
     (case j of
        JNull \<Rightarrow> None
      | JBool b \<Rightarrow> float_of_int env (if b then 1 else 0)
      | JInt i \<Rightarrow> float_of_int env i
      | JFloat f \<Rightarrow> Some f
      | JStr t \<Rightarrow> float_of_str env t
      | JArr xs \<Rightarrow> None
      | JObj kvs \<Rightarrow> None)"

definition stamp :: "user \<Rightarrow> string \<Rightarrow> 'f event" where
  "stamp u ts =
     [(''user_id'', JStr (uid u)), (''username'', JStr (username u)),
      (''avatar'', JStr (avatar_path u)), (''ts'', JStr ts)]"

definition stamp_short :: "user \<Rightarrow> string \<Rightarrow> 'f event" where
  "stamp_short u ts =
     [(''user_id'', JStr (uid u)), (''username'', JStr (username u)), (''ts'', JStr ts)]"

text \<open>
  The six \<open>if isinstance(payload, dict) and payload.get("type") == ...\<close> blocks, for a
  payload that is a dict. \<open>None\<close>: \<open>msg\<close> is still \<open>None\<close> after the \<open>try\<close> block, because
  no block applied or because \<open>float\<close> raised.
\<close>

definition typed_msg :: "'f env \<Rightarrow> user \<Rightarrow> string \<Rightarrow> (string \<times> 'f json) list \<Rightarrow> 'f event option" where
  "typed_msg env u ts p =
     (let t = map_of p ''type'' in
      if t = Some (JStr ''message'') then
        Some ([(''type'', JStr ''message''),
               (''text'', dict_get p ''text'' (JStr [])),
               (''enc'', dict_get p ''enc'' (JBool False)),
               (''ct'', dict_get p ''ct'' (JStr [])),
               (''iv'', dict_get p ''iv'' (JStr [])),
               (''salt'', dict_get p ''salt'' (JStr [])),
               (''msg_id'', dict_get p ''msg_id'' (JStr []))] @ stamp u ts)
      else if t = Some (JStr ''media'') then
        Some ([(''type'', JStr ''media''),
               (''url'', dict_get p ''url'' (JStr [])),
               (''kind'', dict_get p ''kind'' (JStr ''application/octet-stream'')),
               (''enc'', dict_get p ''enc'' (JBool False)),
               (''iv'', dict_get p ''iv'' (JStr [])),
               (''salt'', dict_get p ''salt'' (JStr [])),
               (''orig_kind'', dict_get p ''orig_kind'' (JStr [])),
               (''msg_id'', dict_get p ''msg_id'' (JStr []))] @ stamp u ts)
      else if t = Some (JStr ''album'') then
        Some ([(''type'', JStr ''album''),
               (''url'', dict_get p ''url'' (JStr [])),
               (''title'', dict_get p ''title'' (JStr [])),
               (''enc'', dict_get p ''enc'' (JBool False)),
               (''ct'', dict_get p ''ct'' (JStr [])),
               (''iv'', dict_get p ''iv'' (JStr [])),
               (''salt'', dict_get p ''salt'' (JStr [])),
               (''msg_id'', dict_get p ''msg_id'' (JStr []))] @ stamp u ts)
      else if t = Some (JStr ''location'') then
        (if truthy env (dict_get p ''enc'' JNull) then
           Some ([(''type'', JStr ''location''),
                  (''enc'', JBool True),
                  (''ct'', dict_get p ''ct'' (JStr [])),
                  (''iv'', dict_get p ''iv'' (JStr [])),
                  (''salt'', dict_get p ''salt'' (JStr [])),
                  (''msg_id'', dict_get p ''msg_id'' (JStr []))] @ stamp u ts)
         else
           (case to_float env (dict_get p ''lat'' (JInt 0)) of
              None \<Rightarrow> None
            | Some la \<Rightarrow>
                (case to_float env (dict_get p ''lon'' (JInt 0)) of
                   None \<Rightarrow> None
                 | Some lo \<Rightarrow>
                     Some ([(''type'', JStr ''location''),
                            (''lat'', JFloat la),
                            (''lon'', JFloat lo),
                            (''msg_id'', dict_get p ''msg_id'' (JStr []))] @ stamp u ts))))
      else if t = Some (JStr ''typing'') then
        Some ([(''type'', JStr ''typing''),
               (''state'', JBool (truthy env (dict_get p ''state'' (JBool False))))]
              @ stamp_short u ts)
      else if t = Some (JStr ''read'') then
        Some ([(''type'', JStr ''read''),
               (''msg_id'', dict_get p ''msg_id'' (JStr []))] @ stamp_short u ts)
      else None)"

definition plain_msg :: "user \<Rightarrow> string \<Rightarrow> string \<Rightarrow> 'f event" where
  "plain_msg u ts data =
     [(''type'', JStr ''message''), (''text'', JStr data), (''enc'', JBool False)] @ stamp u ts"

definition classify :: "'f env \<Rightarrow> user \<Rightarrow> string \<Rightarrow> string \<Rightarrow> 'f event" where
  "classify env u ts data =
     (case json_loads env data of
        None \<Rightarrow> plain_msg u ts data
      | Some (JObj p) \<Rightarrow>
          (case typed_msg env u ts p of None \<Rightarrow> plain_msg u ts data | Some m \<Rightarrow> m)
      | Some _ \<Rightarrow> plain_msg u ts data)"

subsection \<open>The WebSocket endpoint (lines 898-1099)\<close>

definition joined_event :: "user \<Rightarrow> string \<Rightarrow> 'f event" where
  "joined_event u ts =
     [(''type'', JStr ''system''), (''text'', JStr (username u @ '' entrou na sala'')),
      (''ts'', JStr ts)]"

definition left_event :: "user \<Rightarrow> string \<Rightarrow> 'f event" where
  "left_event u ts =
     [(''type'', JStr ''system''), (''text'', JStr (username u @ '' saiu da sala'')),
      (''ts'', JStr ts)]"

text \<open>
  The replay loop (lines 952-953) stands outside every \<open>try\<close>: a failing \<open>send_json\<close>
  leaves the endpoint with the exception.
\<close>

fun replay :: "ws \<Rightarrow> 'f event list \<Rightarrow> 'f state \<Rightarrow> exn option \<times> 'f state" where
  "replay w [] s = (None, s)"
| "replay w (m # ms) s =
     (if w \<in> broken s then (Some SendError, s\<lparr>wire := wire s @ [SendFailed w m]\<rparr>)
      else replay w ms (s\<lparr>wire := wire s @ [Sent w m]\<rparr>))"

datatype conn_result = Rejected nat | Joined | Aborted exn

text \<open>
  Lines 936-953: the connection is registered, announced, and sent the history. Here too no
  other handler runs at the awaits of the announcement and of the replay; \<open>join_room_live\<close>
  below lets other handlers take turns during the replay.
\<close>

definition join_room :: "ws \<Rightarrow> room_id \<Rightarrow> user \<Rightarrow> string \<Rightarrow> 'f state \<Rightarrow> conn_result \<times> 'f state" where
  "join_room w r u ts s =
     (case rooms_connections s r of
        None \<Rightarrow> (Aborted KeyError, s)
      | Some cs \<Rightarrow>
          (let s1 = s\<lparr>rooms_connections := (rooms_connections s)(r \<mapsto> set_add w cs)\<rparr>;
               s2 = s1\<lparr>rooms_user_sockets :=
                      (rooms_user_sockets s1)(r \<mapsto> (users_of s1 r)(uid u \<mapsto> set_add w (socks_of s1 r (uid u))))\<rparr>;
               s3 = s2\<lparr>rooms_user_meta :=
                      (rooms_user_meta s2)(r \<mapsto> (meta_of s2 r)(uid u \<mapsto> (username u, avatar_path u)))\<rparr>
           in case broadcast r (joined_event u ts) s3 of
                (Some e, s4) \<Rightarrow> (Aborted e, s4)
              | (None, s4) \<Rightarrow>
                  (case replay w (history_of s4 r) s4 of
                     (Some e, s5) \<Rightarrow> (Aborted e, s5)
                   | (None, s5) \<Rightarrow> (Joined, s5))))"

definition reject :: "ws \<Rightarrow> nat \<Rightarrow> 'f state \<Rightarrow> conn_result \<times> 'f state" where
  "reject w code s = (Rejected code, s\<lparr>wire := wire s @ [Closed w code]\<rparr>)"

text \<open>Lines 900-953; \<open>cookie\<close> is \<open>ws.cookies.get("session")\<close>, \<open>ts\<close> is \<open>now_iso()\<close>.\<close>

definition ws_connect ::
  "'f env \<Rightarrow> ws \<Rightarrow> room_id \<Rightarrow> string option \<Rightarrow> string \<Rightarrow> 'f state \<Rightarrow> conn_result \<times> 'f state" where
  "ws_connect env w r cookie ts s =
     (case cookie of
        None \<Rightarrow> reject w 1008 s
      | Some sid \<Rightarrow>
          if sid = [] then reject w 1008 s
          else
            (case session_user env sid of
               None \<Rightarrow> reject w 1008 s
             | Some u \<Rightarrow>
                 if \<not> uuid_ok env r then reject w 1008 s
                 else
                   (let s1 = ensure_room r s in
                    if r \<in> rooms_deleted s1 then reject w 4100 s1
                    else if uid u \<in> banned_of s1 r then reject w 4003 s1
                    else join_room w r u ts s1)))"

text \<open>The teardown shared by both \<open>except\<close> branches (lines 1070-1081 and 1083-1094).\<close>

definition teardown :: "ws \<Rightarrow> room_id \<Rightarrow> user \<Rightarrow> string \<Rightarrow> 'f state \<Rightarrow> exn option \<times> 'f state" where
  "teardown w r u ts s =
     (case rooms_connections s r of
        None \<Rightarrow> (Some KeyError, s)
      | Some cs \<Rightarrow>
          (let s1 = s\<lparr>rooms_connections := (rooms_connections s)(r \<mapsto> set_discard w cs)\<rparr>;
               s2 = (case rooms_user_sockets s1 r of
                       None \<Rightarrow> s1
                     | Some m \<Rightarrow>
                         (case m (uid u) of
                            None \<Rightarrow> s1
                          | Some l \<Rightarrow>
                              s1\<lparr>rooms_user_sockets :=
                                   (rooms_user_sockets s1)(r \<mapsto> m(uid u \<mapsto> set_discard w l))\<rparr>))
           in if socks_of s2 r (uid u) = [] then
                (let s3 = (case rooms_user_meta s2 r of
                             None \<Rightarrow> s2
                           | Some mm \<Rightarrow>
                               s2\<lparr>rooms_user_meta := (rooms_user_meta s2)(r \<mapsto> mm(uid u := None))\<rparr>)
                 in broadcast r (left_event u ts) s3)
              else (None, s2)))"

datatype loop_result = Continue | Ended | Escaped exn

text \<open>\<open>except WebSocketDisconnect\<close>: teardown only.\<close>

definition ws_disconnect :: "ws \<Rightarrow> room_id \<Rightarrow> user \<Rightarrow> string \<Rightarrow> 'f state \<Rightarrow> loop_result \<times> 'f state" where
  "ws_disconnect w r u ts s =
     (case teardown w r u ts s of
        (Some e, s') \<Rightarrow> (Escaped e, s')
      | (None, s') \<Rightarrow> (Ended, s'))"

text \<open>\<open>except Exception\<close>: teardown, then \<open>close(code=1011)\<close> under \<open>try/except: pass\<close>.\<close>

definition ws_error :: "ws \<Rightarrow> room_id \<Rightarrow> user \<Rightarrow> string \<Rightarrow> 'f state \<Rightarrow> loop_result \<times> 'f state" where
  "ws_error w r u ts s =
     (case teardown w r u ts s of
        (Some e, s') \<Rightarrow> (Escaped e, s')
      | (None, s') \<Rightarrow> (Ended, s'\<lparr>wire := wire s' @ [Closed w 1011]\<rparr>))"

text \<open>
  One turn of the receive loop on the text \<open>data\<close> (lines 956-1068): classify, append to the
  history, fan out with the same two loops as \<open>broadcast\<close>. \<open>ts\<close> is the \<open>now_iso()\<close> of the
  message, \<open>ts'\<close> the one of the teardown when the turn raises.
\<close>

definition ws_receive ::
  "'f env \<Rightarrow> ws \<Rightarrow> room_id \<Rightarrow> user \<Rightarrow> string \<Rightarrow> string \<Rightarrow> string \<Rightarrow> 'f state \<Rightarrow> loop_result \<times> 'f state" where
  "ws_receive env w r u ts ts' data s =
     (let msg = classify env u ts data in
      case rooms_messages s r of
        None \<Rightarrow> ws_error w r u ts' s
      | Some h \<Rightarrow>
          (let s1 = s\<lparr>rooms_messages := (rooms_messages s)(r \<mapsto> h @ [msg])\<rparr> in
           case send_loop (conns_of s1 r) msg [] s1 of
             (dead, s2) \<Rightarrow>
               (case discard_dead r dead s2 of
                  (None, s3) \<Rightarrow> (Continue, s3)
                | (Some e, s3) \<Rightarrow> ws_error w r u ts' s3)))"

subsection \<open>The request layer: new room, room page, destroy, kick, ban\<close>

text \<open>\<open>caller\<close> is the result of \<open>get_session_user\<close>; \<open>require_user\<close> raises 401 on \<open>None\<close>.\<close>

definition owner_forbids :: "'f state \<Rightarrow> room_id \<Rightarrow> user \<Rightarrow> bool" where
  "owner_forbids s r u =
     (case rooms_owner s r of None \<Rightarrow> False | Some ow \<Rightarrow> ow \<noteq> [] \<and> ow \<noteq> uid u)"

definition close_all :: "nat \<Rightarrow> ws list \<Rightarrow> 'f state \<Rightarrow> 'f state" where
  "close_all code cs s = s\<lparr>wire := wire s @ map (\<lambda>c. Closed c code) cs\<rparr>"

text \<open>Lines 759-765; \<open>rid\<close> is the value of \<open>str(uuid.uuid4())\<close>.\<close>

definition new_room :: "user option \<Rightarrow> room_id \<Rightarrow> 'f state \<Rightarrow> http_error + 'f state" where
  "new_room caller rid s =
     (case caller of
        None \<Rightarrow> Inl Unauthorized401
      | Some u \<Rightarrow>
          Inr (s\<lparr>rooms_deleted := rooms_deleted s - {rid},
                 rooms_owner := (rooms_owner s)(rid \<mapsto> uid u)\<rparr>))"

text \<open>Lines 768-788; both redirects leave the state as it is.\<close>

definition chat_room :: "'f env \<Rightarrow> user option \<Rightarrow> room_id \<Rightarrow> 'f state \<Rightarrow> http_error + 'f state" where
  "chat_room env caller r s =
     (case caller of
        None \<Rightarrow> Inl Unauthorized401
      | Some u \<Rightarrow>
          if \<not> uuid_ok env r then Inr s
          else if r \<in> rooms_deleted s then Inr s
          else Inr (ensure_room r s))"

text \<open>Lines 791-810.\<close>

definition destroy_room :: "user option \<Rightarrow> room_id \<Rightarrow> 'f state \<Rightarrow> http_error + 'f state" where
  "destroy_room caller r s =
     (case caller of
        None \<Rightarrow> Inl Unauthorized401
      | Some u \<Rightarrow>
          if owner_forbids s r u then Inl Forbidden403
          else
            (let s1 = close_all 1000 (conns_of s r) s in
             Inr (s1\<lparr>rooms_connections := (rooms_connections s1)(r := None),
                    rooms_messages := (rooms_messages s1)(r := None),
                    rooms_owner := (rooms_owner s1)(r := None),
                    rooms_banned := (rooms_banned s1)(r := None),
                    rooms_user_sockets := (rooms_user_sockets s1)(r := None),
                    rooms_user_meta := (rooms_user_meta s1)(r := None),
                    rooms_deleted := insert r (rooms_deleted s1)\<rparr>)))"

text \<open>Lines 813-826.\<close>

definition kick_user :: "user option \<Rightarrow> room_id \<Rightarrow> user_id \<Rightarrow> 'f state \<Rightarrow> http_error + 'f state" where
  "kick_user caller r target s =
     (case caller of
        None \<Rightarrow> Inl Unauthorized401
      | Some u \<Rightarrow>
          if owner_forbids s r u then Inl Forbidden403
          else
            (let s1 = ensure_room r s in
             Inr (close_all 4000 (socks_of s1 r target) s1)))"

text \<open>Lines 829-843.\<close>

definition ban_user :: "user option \<Rightarrow> room_id \<Rightarrow> user_id \<Rightarrow> 'f state \<Rightarrow> http_error + 'f state" where
  "ban_user caller r target s =
     (case caller of
        None \<Rightarrow> Inl Unauthorized401
      | Some u \<Rightarrow>
          if owner_forbids s r u then Inl Forbidden403
          else
            (let s1 = ensure_room r s;
                 s2 = s1\<lparr>rooms_banned := (rooms_banned s1)(r \<mapsto> insert target (banned_of s1 r))\<rparr>
             in Inr (close_all 4003 (socks_of s2 r target) s2)))"

subsection \<open>Runs of the hub\<close>

text \<open>
  One handler activation after the other. A request that ends in an HTTP error leaves the
  state as it is; an endpoint left by an exception keeps the state it had reached.
  \<open>Break\<close> is the environment's step: a socket starts failing.
\<close>

datatype op =
    NewRoom "user option" room_id
  | ChatRoom "user option" room_id
  | Destroy "user option" room_id
  | Kick "user option" room_id user_id
  | Ban "user option" room_id user_id
  | Connect ws room_id "string option" string
  | Receive ws room_id user string string string
  | Disconnect ws room_id user string
  | RecvError ws room_id user string
  | Break ws

definition keep :: "'f state \<Rightarrow> http_error + 'f state \<Rightarrow> 'f state" where
  "keep s res = (case res of Inl e \<Rightarrow> s | Inr s' \<Rightarrow> s')"

fun step :: "'f env \<Rightarrow> op \<Rightarrow> 'f state \<Rightarrow> 'f state" where
  "step env (NewRoom caller rid) s = keep s (new_room caller rid s)"
| "step env (ChatRoom caller r) s = keep s (chat_room env caller r s)"
| "step env (Destroy caller r) s = keep s (destroy_room caller r s)"
| "step env (Kick caller r t) s = keep s (kick_user caller r t s)"
| "step env (Ban caller r t) s = keep s (ban_user caller r t s)"
| "step env (Connect w r cookie ts) s = snd (ws_connect env w r cookie ts s)"
| "step env (Receive w r u ts ts' data) s = snd (ws_receive env w r u ts ts' data s)"
| "step env (Disconnect w r u ts) s = snd (ws_disconnect w r u ts s)"
| "step env (RecvError w r u ts) s = snd (ws_error w r u ts s)"
| "step env (Break w) s = s\<lparr>broken := insert w (broken s)\<rparr>"

fun run :: "'f env \<Rightarrow> op list \<Rightarrow> 'f state \<Rightarrow> 'f state" where
  "run env [] s = s"
| "run env (x # xs) s = run env xs (step env x s)"


subsection \<open>A small concrete world, for evaluating the definitions\<close>

definition alice :: user where
  "alice = \<lparr> uid = ''u-alice'', username = ''alice'', avatar_path = [] \<rparr>"

definition bob :: user where
  "bob = \<lparr> uid = ''u-bob'', username = ''bob'', avatar_path = ''/uploads/b.png'' \<rparr>"

definition demo_room :: room_id where
  "demo_room = ''123e4567-e89b-42d3-a456-426614174000''"

definition demo_env :: "int env" where
  "demo_env = \<lparr>
     session_user = (\<lambda>sid. if sid = ''sa'' then Some alice
                            else if sid = ''sb'' then Some bob else None),
     uuid_ok = (\<lambda>r. length r = 36),
     json_loads = (\<lambda>d. if d = ''{}'' then Some (JObj [])
                          else if d = ''[1]'' then Some (JArr [JInt 1]) else None),
     float_of_int = Some,
     float_of_str = (\<lambda>t. None),
     float_is_zero = (\<lambda>f. f = 0) \<rparr>"

definition hello :: "int event" where
  "hello = [(''type'', JStr ''message''), (''text'', JStr ''hi'')]"

text \<open>A room with three connections, the second of which fails on send.\<close>

definition demo_three :: "int state" where
  "demo_three = init_state\<lparr>
     rooms_messages := [demo_room \<mapsto> [hello]],
     rooms_connections := [demo_room \<mapsto> [1, 2, 3]],
     rooms_banned := [demo_room \<mapsto> {}],
     rooms_user_sockets := [demo_room \<mapsto> [uid alice \<mapsto> [1, 3], uid bob \<mapsto> [2]]],
     rooms_user_meta := [demo_room \<mapsto> [uid alice \<mapsto> (''alice'', []),
                                          uid bob \<mapsto> (''bob'', ''/uploads/b.png'')]],
     broken := {2} \<rparr>"

subsection \<open>A fan-out with other handlers running at its awaits\<close>

text \<open>
  The loops of lines 204-208 and 1062-1066 iterate the room's set object itself, and every
  turn of the loop awaits a send. While the pass waits, other handlers run and change the
  same set object in place: a join adds a socket (line 936), a teardown or the eviction
  loop of another pass discards one (lines 1070, 1083, 210, 1068). An \<open>interference\<close> is
  one such change. (\<open>destroy_room\<close> pops the dictionary entry and leaves the set object as
  it is, so it is not one.)

  A set iterator raises \<open>RuntimeError: Set changed size during iteration\<close> at its next
  step when the number of elements differs from the number at its creation; the \<open>for\<close>
  statement stands outside the \<open>try\<close> around the send, so the error leaves the loop.
  \<open>n\<close> is the size at the creation of the iterator and \<open>todo\<close> the elements still to
  visit; a discarded element is no longer visited, an added one is taken to lie ahead of
  the iterator (this matters only when additions and discards balance). The schedule gives,
  for each awaited send in turn, the changes made during it; when it is used up the rest of
  the pass runs without interruption.
\<close>

datatype interference = Adds ws | Discards ws

fun interfere :: "room_id \<Rightarrow> interference \<Rightarrow> ws list \<times> 'f state \<Rightarrow> ws list \<times> 'f state" where
  "interfere r (Adds c) (todo, s) =
     (case rooms_connections s r of
        None \<Rightarrow> (todo, s)
      | Some cs \<Rightarrow>
          (if c \<in> set cs then todo else todo @ [c],
           s\<lparr>rooms_connections := (rooms_connections s)(r \<mapsto> set_add c cs)\<rparr>))"
| "interfere r (Discards c) (todo, s) =
     (case rooms_connections s r of
        None \<Rightarrow> (todo, s)
      | Some cs \<Rightarrow>
          (removeAll c todo,
           s\<lparr>rooms_connections := (rooms_connections s)(r \<mapsto> set_discard c cs)\<rparr>))"

definition interfere_all ::
  "room_id \<Rightarrow> interference list \<Rightarrow> ws list \<times> 'f state \<Rightarrow> ws list \<times> 'f state" where
  "interfere_all r ivs x = foldl (\<lambda>y i. interfere r i y) x ivs"

fun live_pass ::
  "room_id \<Rightarrow> 'f event \<Rightarrow> nat \<Rightarrow> ws list \<Rightarrow> ws list \<Rightarrow> interference list list \<Rightarrow> 'f state
     \<Rightarrow> exn option \<times> ws list \<times> 'f state" where
  "live_pass r m n todo dead [] s =
     (if length (conns_of s r) \<noteq> n then (Some RuntimeError, dead, s)
      else (case send_loop todo m dead s of (dead', s') \<Rightarrow> (None, dead', s')))"
| "live_pass r m n todo dead (ivs # sched) s =
     (if length (conns_of s r) \<noteq> n then (Some RuntimeError, dead, s)
      else
        (case todo of
           [] \<Rightarrow> (None, dead, s)
         | c # rest \<Rightarrow>
             (case interfere_all r ivs (rest, s\<lparr>wire := wire s @ [send_json c m s]\<rparr>) of
                (rest', s') \<Rightarrow>
                  live_pass r m n rest' (if c \<in> broken s then dead @ [c] else dead) sched s')))"

text \<open>\<open>broadcast\<close> (lines 202-210) under a schedule.\<close>

definition broadcast_live ::
  "room_id \<Rightarrow> 'f event \<Rightarrow> interference list list \<Rightarrow> 'f state \<Rightarrow> exn option \<times> 'f state" where
  "broadcast_live r m sched s =
     (case live_pass r m (length (conns_of s r)) (conns_of s r) [] sched s of
        (Some e, dead, s1) \<Rightarrow> (Some e, s1)
      | (None, dead, s1) \<Rightarrow> discard_dead r dead s1)"

text \<open>
  One turn of the receive loop (lines 956-1068) under a schedule: an exception of the loops
  is caught by \<open>except Exception\<close> (line 1082).
\<close>

definition ws_receive_live ::
  "'f env \<Rightarrow> ws \<Rightarrow> room_id \<Rightarrow> user \<Rightarrow> string \<Rightarrow> string \<Rightarrow> string \<Rightarrow> interference list list
     \<Rightarrow> 'f state \<Rightarrow> loop_result \<times> 'f state" where
  "ws_receive_live env w r u ts ts' data sched s =
     (let msg = classify env u ts data in
      case rooms_messages s r of
        None \<Rightarrow> ws_error w r u ts' s
      | Some h \<Rightarrow>
          (let s1 = s\<lparr>rooms_messages := (rooms_messages s)(r \<mapsto> h @ [msg])\<rparr> in
           case live_pass r msg (length (conns_of s1 r)) (conns_of s1 r) [] sched s1 of
             (Some e, dead, s2) \<Rightarrow> ws_error w r u ts' s2
           | (None, dead, s2) \<Rightarrow>
               (case discard_dead r dead s2 of
                  (None, s3) \<Rightarrow> (Continue, s3)
                | (Some e, s3) \<Rightarrow> ws_error w r u ts' s3)))"

subsection \<open>A join with other handlers running during the replay\<close>

text \<open>
  The replay loop (lines 952-953) iterates the room's history list itself and awaits every
  send; the joining socket is in the room's connection set since line 936. A list iterator
  keeps an index and yields as long as the index is below the current length, so events
  appended meanwhile are yielded too. A \<open>turn\<close> is one turn of the receive loop of
  another connection of the room, run to its end during an awaited send of the replay:
  socket, user, the two time stamps and the payload. The schedule gives the turns taken
  during each awaited send of the replay; when it is used up the rest of the replay is not
  interrupted. The announcement before the replay is the uninterrupted \<open>broadcast\<close>.
\<close>

type_synonym turn = "ws \<times> user \<times> string \<times> string \<times> string"

fun other_turn :: "'f env \<Rightarrow> room_id \<Rightarrow> turn \<Rightarrow> 'f state \<Rightarrow> 'f state" where
  "other_turn env r (w', u', ts, ts', d) s = snd (ws_receive env w' r u' ts ts' d s)"

fun replay_live ::
  "'f env \<Rightarrow> ws \<Rightarrow> room_id \<Rightarrow> nat \<Rightarrow> turn list list \<Rightarrow> 'f state \<Rightarrow> exn option \<times> 'f state" where
  "replay_live env w r i [] s = replay w (drop i (history_of s r)) s"
| "replay_live env w r i (turns # sched) s =
     (if i < length (history_of s r) then
        (if w \<in> broken s
         then (Some SendError, s\<lparr>wire := wire s @ [SendFailed w (history_of s r ! i)]\<rparr>)
         else replay_live env w r (Suc i) sched
                (foldl (\<lambda>x t. other_turn env r t x)
                   (s\<lparr>wire := wire s @ [Sent w (history_of s r ! i)]\<rparr>) turns))
      else (None, s))"

definition join_room_live ::
  "'f env \<Rightarrow> ws \<Rightarrow> room_id \<Rightarrow> user \<Rightarrow> string \<Rightarrow> turn list list \<Rightarrow> 'f state
     \<Rightarrow> conn_result \<times> 'f state" where
  "join_room_live env w r u ts sched s =
     (case rooms_connections s r of
        None \<Rightarrow> (Aborted KeyError, s)
      | Some cs \<Rightarrow>
          (let s1 = s\<lparr>rooms_connections := (rooms_connections s)(r \<mapsto> set_add w cs)\<rparr>;
               s2 = s1\<lparr>rooms_user_sockets :=
                      (rooms_user_sockets s1)(r \<mapsto> (users_of s1 r)(uid u \<mapsto> set_add w (socks_of s1 r (uid u))))\<rparr>;
               s3 = s2\<lparr>rooms_user_meta :=
                      (rooms_user_meta s2)(r \<mapsto> (meta_of s2 r)(uid u \<mapsto> (username u, avatar_path u)))\<rparr>
           in case broadcast r (joined_event u ts) s3 of
                (Some e, s4) \<Rightarrow> (Aborted e, s4)
              | (None, s4) \<Rightarrow>
                  (case replay_live env w r 0 sched s4 of
                     (Some e, s5) \<Rightarrow> (Aborted e, s5)
                   | (None, s5) \<Rightarrow> (Joined, s5))))"

subsection \<open>What a socket has received\<close>

text \<open>The events of the successful sends on socket \<open>w\<close>, in the order of the trace.\<close>

fun delivered_to :: "ws \<Rightarrow> 'f io \<Rightarrow> 'f event list" where
  "delivered_to w (Sent c m) = (if c = w then [m] else [])"
| "delivered_to w (SendFailed c m) = []"
| "delivered_to w (Closed c code) = []"

definition received :: "ws \<Rightarrow> 'f io list \<Rightarrow> 'f event list" where
  "received w tr = concat (map (delivered_to w) tr)"

text \<open>The sockets on which a send of the event was attempted.\<close>

fun attempt_of :: "'f event \<Rightarrow> 'f io \<Rightarrow> ws list" where
  "attempt_of e (Sent c m) = (if m = e then [c] else [])"
| "attempt_of e (SendFailed c m) = (if m = e then [c] else [])"
| "attempt_of e (Closed c code) = []"

definition attempted :: "'f event \<Rightarrow> 'f io list \<Rightarrow> ws list" where
  "attempted e tr = concat (map (attempt_of e) tr)"

definition howdy :: "int event" where
  "howdy = [(''type'', JStr ''message''), (''text'', JStr ''howdy'')]"

text \<open>The room of \<open>demo_three\<close> with two events in its history.\<close>

definition demo_talk :: "int state" where
  "demo_talk = demo_three\<lparr>rooms_messages := [demo_room \<mapsto> [hello, howdy]]\<rparr>"

subsection \<open>Notions used in the statements\<close>

text \<open>An activation of the receive loop of some connection of room \<open>r\<close>.\<close>

fun receives_in :: "room_id \<Rightarrow> op \<Rightarrow> bool" where
  "receives_in r (Receive w r' u ts ts' d) = (r' = r)"
| "receives_in r _ = False"

text \<open>The \<open>send_json\<close> calls the replay loop makes on the joining socket.\<close>

definition replay_trace :: "ws \<Rightarrow> 'f event list \<Rightarrow> 'f state \<Rightarrow> 'f io list" where
  "replay_trace w ms s =
     (if w \<in> broken s then (case ms of [] \<Rightarrow> [] | m # _ \<Rightarrow> [SendFailed w m])
      else map (Sent w) ms)"

text \<open>The state after the two \<open>discard\<close> calls of a teardown.\<close>

definition detached :: "ws \<Rightarrow> room_id \<Rightarrow> user \<Rightarrow> ws list \<Rightarrow> 'f state \<Rightarrow> 'f state" where
  "detached w r u cs s =
     s\<lparr>rooms_connections := (rooms_connections s)(r \<mapsto> removeAll w cs),
       rooms_user_sockets :=
         (case rooms_user_sockets s r of
            None \<Rightarrow> rooms_user_sockets s
          | Some m \<Rightarrow>
              (case m (uid u) of
                 None \<Rightarrow> rooms_user_sockets s
               | Some l \<Rightarrow> (rooms_user_sockets s)(r \<mapsto> m(uid u \<mapsto> removeAll w l))))\<rparr>"

section \<open>The two loops of a fan-out, in closed form\<close>

lemma send_loop_eq:
  "send_loop cs m dead s =
     (dead @ filter (\<lambda>c. c \<in> broken s) cs, s\<lparr>wire := wire s @ map (\<lambda>c. send_json c m s) cs\<rparr>)"
  by (induction cs arbitrary: dead s) (simp_all add: send_json_def)

lemma filter_removeAll_aux:
  "filter (\<lambda>x. x \<notin> set cs) (removeAll c xs) = filter (\<lambda>x. x \<notin> set (c # cs)) xs"
  by (induction xs) auto

lemma discard_dead_eq:
  "rooms_connections s r = Some xs \<Longrightarrow>
   discard_dead r dead s =
     (None, s\<lparr>rooms_connections := (rooms_connections s)(r \<mapsto> filter (\<lambda>c. c \<notin> set dead) xs)\<rparr>)"
proof (induction dead arbitrary: s xs)
  case Nil
  then show ?case by (simp add: map_upd_triv)
next
  case (Cons c cs)
  let ?s1 = "s\<lparr>rooms_connections := (rooms_connections s)(r \<mapsto> set_discard c xs)\<rparr>"
  have "rooms_connections ?s1 r = Some (set_discard c xs)" by simp
  from Cons.IH [OF this] Cons.prems show ?case
    by (simp add: set_discard_def filter_removeAll_aux fun_upd_def del: set_simps cong: if_cong)
qed

lemma filter_member_imp:
  "filter (\<lambda>c. c \<in> set xs \<longrightarrow> Q c) xs = filter Q xs"
  by (rule filter_cong) simp_all

lemma broadcast_eq:
  "broadcast r m s =
     (None, s\<lparr>wire := wire s @ map (\<lambda>c. send_json c m s) (conns_of s r),
              rooms_connections :=
                (rooms_connections s)(r := map_option (filter (\<lambda>c. c \<notin> broken s)) (rooms_connections s r))\<rparr>)"
proof (cases "rooms_connections s r")
  case None
  then show ?thesis
    by (simp add: broadcast_def conns_of_def fun_upd_idem)
next
  case (Some xs)
  let ?s1 = "s\<lparr>wire := wire s @ map (\<lambda>c. send_json c m s) xs\<rparr>"
  have "rooms_connections ?s1 r = Some xs" using Some by simp
  from discard_dead_eq [OF this, of "filter (\<lambda>c. c \<in> broken s) xs"] Some show ?thesis
    by (simp add: broadcast_def conns_of_def send_loop_eq filter_member_imp)
qed

lemma replay_ok:
  "w \<notin> broken s \<Longrightarrow> replay w ms s = (None, s\<lparr>wire := wire s @ map (Sent w) ms\<rparr>)"
  by (induction ms arbitrary: s) simp_all

lemma replay_eq:
  "replay w ms s =
     (if w \<in> broken s
      then (case ms of [] \<Rightarrow> (None, s)
            | m # _ \<Rightarrow> (Some SendError, s\<lparr>wire := wire s @ [SendFailed w m]\<rparr>))
      else (None, s\<lparr>wire := wire s @ map (Sent w) ms\<rparr>))"
  by (cases ms) (simp_all add: replay_ok)

text \<open>The loops written out in the receive loop are those of \<open>broadcast\<close>.\<close>

lemma ws_receive_eq:
  "rooms_messages s r = Some h \<Longrightarrow>
   ws_receive env w r u ts ts' data s =
     (Continue,
      snd (broadcast r (classify env u ts data)
             (s\<lparr>rooms_messages := (rooms_messages s)(r \<mapsto> h @ [classify env u ts data])\<rparr>)))"
proof -
  assume h: "rooms_messages s r = Some h"
  let ?m = "classify env u ts data"
  let ?s1 = "s\<lparr>rooms_messages := (rooms_messages s)(r \<mapsto> h @ [?m])\<rparr>"
  have "ws_receive env w r u ts ts' data s =
          (case broadcast r ?m ?s1 of
             (None, s3) \<Rightarrow> (Continue, s3)
           | (Some e, s3) \<Rightarrow> ws_error w r u ts' s3)"
    using h by (simp add: ws_receive_def Let_def broadcast_def split: prod.splits)
  then show ?thesis
    by (simp add: broadcast_eq)
qed

section \<open>C4: a fan-out and the failures of single sends\<close>

text \<open>
  A pass that no other handler interrupts does what the \<open>try\<close> around the send and the
  deferred discards are there for: one \<open>send_json\<close> is attempted per connection of the
  set whether or not another send failed, the set is the same after the sending loop as
  before it, the failing connections are collected and leave the set after the pass, and
  no exception leaves the loops. Without a schedule the pass under interference is this
  pass.
\<close>

lemma uninterrupted_pass_tolerates_send_failures:
  "fst (broadcast r m s) = None
   \<and> wire (snd (broadcast r m s)) = wire s @ map (\<lambda>c. send_json c m s) (conns_of s r)
   \<and> rooms_connections (snd (send_loop (conns_of s r) m [] s)) = rooms_connections s
   \<and> fst (send_loop (conns_of s r) m [] s) = filter (\<lambda>c. c \<in> broken s) (conns_of s r)
   \<and> conns_of (snd (broadcast r m s)) r = filter (\<lambda>c. c \<notin> broken s) (conns_of s r)
   \<and> (rooms_messages s r \<noteq> None \<longrightarrow>
        fst (ws_receive env w r u ts ts' data s) = Continue
        \<and> wire (snd (ws_receive env w r u ts ts' data s))
            = wire s @ map (\<lambda>c. send_json c (classify env u ts data) s) (conns_of s r)
        \<and> conns_of (snd (ws_receive env w r u ts ts' data s)) r
            = filter (\<lambda>c. c \<notin> broken s) (conns_of s r))"
proof -
  have a: "fst (broadcast r m s) = None
   \<and> wire (snd (broadcast r m s)) = wire s @ map (\<lambda>c. send_json c m s) (conns_of s r)
   \<and> rooms_connections (snd (send_loop (conns_of s r) m [] s)) = rooms_connections s
   \<and> fst (send_loop (conns_of s r) m [] s) = filter (\<lambda>c. c \<in> broken s) (conns_of s r)
   \<and> conns_of (snd (broadcast r m s)) r = filter (\<lambda>c. c \<notin> broken s) (conns_of s r)"
    by (simp add: broadcast_eq send_loop_eq conns_of_def split: option.splits)
  have b: "fst (ws_receive env w r u ts ts' data s) = Continue
        \<and> wire (snd (ws_receive env w r u ts ts' data s))
            = wire s @ map (\<lambda>c. send_json c (classify env u ts data) s) (conns_of s r)
        \<and> conns_of (snd (ws_receive env w r u ts ts' data s)) r
            = filter (\<lambda>c. c \<notin> broken s) (conns_of s r)"
    if "rooms_messages s r = Some h" for h
    using that
    by (simp add: ws_receive_eq broadcast_eq conns_of_def send_json_def split: option.splits)
  from a b show ?thesis by auto
qed

lemma broadcast_live_uninterrupted: "broadcast_live r m [] s = broadcast r m s"
  by (simp add: broadcast_live_def broadcast_def split: prod.splits)

lemma ws_receive_live_uninterrupted:
  "ws_receive_live env w r u ts ts' data [] s = ws_receive env w r u ts ts' data s"
  by (simp add: ws_receive_live_def ws_receive_def Let_def split: prod.splits option.splits)

text \<open>
  Claim C4 says that in every broadcast the send is attempted on every connection of the
  set, that failed connections leave the set only after the whole iteration, never during
  it, and that the event is never aborted for the room. The loops iterate the live set
  across their awaits, where \<open>destroy_room\<close>, \<open>kick_user\<close> and \<open>ban_user\<close> iterate
  \<open>list(conns)\<close>. In the room with the connections 1, 2 and 3, socket 2 failing:

  \<^item> while a broadcast of \<open>hello\<close> awaits its first send, the eviction loop of another
    pass discards the failed socket 2; the iterator raises \<open>RuntimeError\<close> at its next
    step and \<open>hello\<close> is attempted on one of the three connections only;
  \<^item> while the receive loop of socket 1 awaits the first send of a received payload, a
    join adds socket 4; the same error is caught at line 1082, the event is attempted on
    one connection only, and the sender itself is torn down and closed with 1011;
  \<^item> with no interference the event is attempted on all three.
\<close>

theorem fan_out_aborted_when_set_changes:
  "set (conns_of demo_three demo_room) = {1, 2, 3}
   \<and> fst (broadcast_live demo_room hello [[Discards 2]] demo_three) = Some RuntimeError
   \<and> length (attempted hello
         (wire (snd (broadcast_live demo_room hello [[Discards 2]] demo_three)))) = 1
   \<and> fst (ws_receive_live demo_env 1 demo_room alice ''t1'' ''t2'' ''hi'' [[Adds 4]] demo_three)
       = Ended
   \<and> length (attempted (plain_msg alice ''t1'' ''hi'')
         (wire (snd (ws_receive_live demo_env 1 demo_room alice ''t1'' ''t2'' ''hi'' [[Adds 4]]
                       demo_three)))) = 1
   \<and> Closed 1 1011 \<in> set (wire (snd (ws_receive_live demo_env 1 demo_room alice ''t1'' ''t2''
                                         ''hi'' [[Adds 4]] demo_three)))
   \<and> set (conns_of (snd (ws_receive_live demo_env 1 demo_room alice ''t1'' ''t2'' ''hi''
                             [[Adds 4]] demo_three)) demo_room)
       = {2, 3, 4}
   \<and> set (attempted hello (wire (snd (broadcast_live demo_room hello [] demo_three))))
       = {1, 2, 3}"
  by code_simp

section \<open>What \<open>ensure_room\<close>, kick and ban change\<close>

lemma ensure_room_views:
  "conns_of (ensure_room r s) r' = conns_of s r'"
  "history_of (ensure_room r s) r' = history_of s r'"
  "banned_of (ensure_room r s) r' = banned_of s r'"
  "users_of (ensure_room r s) r' = users_of s r'"
  "socks_of (ensure_room r s) r' t = socks_of s r' t"
  "meta_of (ensure_room r s) r' = meta_of s r'"
  "rooms_owner (ensure_room r s) = rooms_owner s"
  "rooms_deleted (ensure_room r s) = rooms_deleted s"
  "broken (ensure_room r s) = broken s"
  "wire (ensure_room r s) = wire s"
  by (simp_all add: ensure_room_def setdefault_def conns_of_def history_of_def banned_of_def
        users_of_def socks_of_def meta_of_def split: option.splits)

lemma ensure_room_existing:
  "rooms_messages s r \<noteq> None \<Longrightarrow> rooms_connections s r \<noteq> None \<Longrightarrow> rooms_banned s r \<noteq> None \<Longrightarrow>
   rooms_user_sockets s r \<noteq> None \<Longrightarrow> rooms_user_meta s r \<noteq> None \<Longrightarrow> ensure_room r s = s"
  by (auto simp: ensure_room_def setdefault_def)




section \<open>C7: destroying a room that does not exist\<close>

text \<open>
  Claim C7 says that \<open>destroy\<close> fails with NotFound when the room does not exist.
  \<open>destroy_room\<close> (lines 791-810) never looks the room up: on the empty hub, where no
  dictionary has an entry for the room, the call of an authenticated user succeeds and
  tombstones the id.
\<close>

theorem destroy_room_absent_counterexample:
  "rooms_connections (init_state :: int state) demo_room = None
   \<and> rooms_messages (init_state :: int state) demo_room = None
   \<and> rooms_owner (init_state :: int state) demo_room = None
   \<and> destroy_room (Some alice) demo_room (init_state :: int state)
       = Inr (init_state\<lparr>rooms_deleted := {demo_room}\<rparr>)"
  by (simp add: destroy_room_def init_state_def owner_forbids_def close_all_def conns_of_def)

text \<open>
  Claim C7, amended. \<open>destroy_room\<close> never answers NotFound. For an authenticated
  caller whom the owner check lets through it succeeds whether or not the room exists:
  it closes the connections the room has (none for an absent room) with code 1000, removes
  the room's entry from every dictionary and adds the id to the tombstone set. Its only
  failures are 401 (no user) and 403 (the room has another owner).
\<close>

theorem destroy_room_never_not_found:
  "destroy_room caller r s \<noteq> Inl NotFound404
   \<and> (caller = Some u \<and> \<not> owner_forbids s r u \<longrightarrow>
        \<not> isl (destroy_room caller r s)
        \<and> r \<in> rooms_deleted (projr (destroy_room caller r s))
        \<and> rooms_connections (projr (destroy_room caller r s)) r = None
        \<and> rooms_messages (projr (destroy_room caller r s)) r = None
        \<and> rooms_owner (projr (destroy_room caller r s)) r = None
        \<and> rooms_banned (projr (destroy_room caller r s)) r = None
        \<and> rooms_user_sockets (projr (destroy_room caller r s)) r = None
        \<and> rooms_user_meta (projr (destroy_room caller r s)) r = None
        \<and> wire (projr (destroy_room caller r s))
            = wire s @ map (\<lambda>c. Closed c 1000) (conns_of s r))
   \<and> (caller = None \<longrightarrow> destroy_room caller r s = Inl Unauthorized401)
   \<and> (caller = Some u \<and> owner_forbids s r u \<longrightarrow> destroy_room caller r s = Inl Forbidden403)"
  by (auto simp: destroy_room_def close_all_def Let_def split: option.splits)

theorem destroy_room_never_not_found_witness:
  "\<not> isl (destroy_room (Some alice) demo_room (init_state :: int state))
   \<and> demo_room \<in> rooms_deleted (projr (destroy_room (Some alice) demo_room (init_state :: int state)))
   \<and> \<not> isl (destroy_room (Some alice) demo_room demo_three)
   \<and> wire (projr (destroy_room (Some alice) demo_room demo_three))
       = [Closed 1 1000, Closed 2 1000, Closed 3 1000]
   \<and> destroy_room None demo_room demo_three = Inl Unauthorized401
   \<and> destroy_room (Some alice) demo_room (demo_three\<lparr>rooms_owner := [demo_room \<mapsto> uid bob]\<rparr>)
       = Inl Forbidden403"
  using destroy_room_never_not_found [of "Some alice" demo_room demo_three alice]
    destroy_room_never_not_found [of "Some alice" demo_room "init_state :: int state" alice]
    destroy_room_never_not_found [of None demo_room demo_three alice]
    destroy_room_never_not_found
      [of "Some alice" demo_room "demo_three\<lparr>rooms_owner := [demo_room \<mapsto> uid bob]\<rparr>" alice]
  by (simp add: demo_three_def init_state_def owner_forbids_def conns_of_def alice_def bob_def)

section \<open>C8: the close codes\<close>

text \<open>
  Claim C8 says that the close codes for an unauthenticated connection, an invalid room id,
  a tombstoned room, a banned user and a kicked user are pairwise different. The endpoint
  closes with 1008 both when the session cookie is missing and when the room id is not a
  UUID (lines 903-926).
\<close>

theorem close_code_shared_counterexample:
  "fst (ws_connect demo_env 7 demo_room None ''t'' init_state) = Rejected 1008
   \<and> fst (ws_connect demo_env 7 ''not-a-uuid'' (Some ''sa'') ''t'' init_state) = Rejected 1008"
  by (simp add: ws_connect_def reject_def demo_env_def)

text \<open>
  Claim C8, amended. The endpoint closes with 1008 for a missing, empty or unknown session
  and also for a malformed room id, so these two causes share a code; a tombstoned room
  closes with 4100, a banned user with 4003 (at the join and from \<open>ban_user\<close>), a kicked
  user with 4000; the four codes 1008, 4100, 4003 and 4000 are pairwise different.
\<close>

theorem close_codes_by_cause:
  "fst (ws_connect env w r None ts s) = Rejected 1008
   \<and> fst (ws_connect env w r (Some []) ts s) = Rejected 1008
   \<and> (session_user env sid = None \<longrightarrow> fst (ws_connect env w r (Some sid) ts s) = Rejected 1008)
   \<and> (sid \<noteq> [] \<and> session_user env sid = Some u \<and> \<not> uuid_ok env r \<longrightarrow>
        fst (ws_connect env w r (Some sid) ts s) = Rejected 1008)
   \<and> (sid \<noteq> [] \<and> session_user env sid = Some u \<and> uuid_ok env r \<and> r \<in> rooms_deleted s \<longrightarrow>
        fst (ws_connect env w r (Some sid) ts s) = Rejected 4100)
   \<and> (sid \<noteq> [] \<and> session_user env sid = Some u \<and> uuid_ok env r \<and> r \<notin> rooms_deleted s
        \<and> uid u \<in> banned_of s r \<longrightarrow>
        fst (ws_connect env w r (Some sid) ts s) = Rejected 4003)
   \<and> (kick_user caller r t s = Inr s' \<longrightarrow>
        wire s' = wire s @ map (\<lambda>c. Closed c 4000) (socks_of s r t))
   \<and> (ban_user caller r t s = Inr s' \<longrightarrow>
        wire s' = wire s @ map (\<lambda>c. Closed c 4003) (socks_of s r t))
   \<and> distinct [1008, 4100, 4003, 4000 :: nat]"
proof -
  have k: "wire s' = wire s @ map (\<lambda>c. Closed c 4000) (socks_of s r t)"
    if "kick_user caller r t s = Inr s'"
    using that
    by (auto simp: kick_user_def close_all_def Let_def ensure_room_views
          split: option.splits if_splits)
  have "socks_of (ensure_room r s\<lparr>rooms_banned := b\<rparr>) r t = socks_of s r t" for b
    using ensure_room_views(5) [of r s r t] by (simp add: socks_of_def users_of_def)
  then have b: "wire s' = wire s @ map (\<lambda>c. Closed c 4003) (socks_of s r t)"
    if "ban_user caller r t s = Inr s'"
    using that
    by (auto simp: ban_user_def close_all_def Let_def ensure_room_views
          split: option.splits if_splits)
  show ?thesis
    using k b
    by (simp add: ws_connect_def reject_def Let_def ensure_room_views)
qed

theorem close_codes_by_cause_witness:
  "fst (ws_connect demo_env 7 demo_room None ''t'' demo_three) = Rejected 1008
   \<and> fst (ws_connect demo_env 7 demo_room (Some ''nobody'') ''t'' demo_three) = Rejected 1008
   \<and> fst (ws_connect demo_env 7 ''room-1'' (Some ''sa'') ''t'' demo_three) = Rejected 1008
   \<and> fst (ws_connect demo_env 7 demo_room (Some ''sa'') ''t''
            (demo_three\<lparr>rooms_deleted := {demo_room}\<rparr>)) = Rejected 4100
   \<and> fst (ws_connect demo_env 7 demo_room (Some ''sb'') ''t''
            (demo_three\<lparr>rooms_banned := [demo_room \<mapsto> {uid bob}]\<rparr>)) = Rejected 4003
   \<and> wire (projr (kick_user (Some alice) demo_room (uid bob) demo_three)) = [Closed 2 4000]
   \<and> wire (projr (ban_user (Some alice) demo_room (uid bob) demo_three)) = [Closed 2 4003]"
proof -
  have o: "\<not> owner_forbids demo_three demo_room alice"
    by (simp add: owner_forbids_def demo_three_def init_state_def)
  have k: "kick_user (Some alice) demo_room (uid bob) demo_three
             = Inr (projr (kick_user (Some alice) demo_room (uid bob) demo_three))"
    by (simp add: kick_user_def o Let_def)
  have b: "ban_user (Some alice) demo_room (uid bob) demo_three
             = Inr (projr (ban_user (Some alice) demo_room (uid bob) demo_three))"
    by (simp add: ban_user_def o Let_def)
  have s: "socks_of demo_three demo_room (uid bob) = [2]" "wire demo_three = []"
    by (simp_all add: demo_three_def init_state_def socks_of_def users_of_def alice_def bob_def)
  have c: "fst (ws_connect demo_env 7 demo_room None ''t'' demo_three) = Rejected 1008
   \<and> fst (ws_connect demo_env 7 demo_room (Some ''nobody'') ''t'' demo_three) = Rejected 1008
   \<and> fst (ws_connect demo_env 7 ''room-1'' (Some ''sa'') ''t'' demo_three) = Rejected 1008
   \<and> fst (ws_connect demo_env 7 demo_room (Some ''sa'') ''t''
            (demo_three\<lparr>rooms_deleted := {demo_room}\<rparr>)) = Rejected 4100
   \<and> fst (ws_connect demo_env 7 demo_room (Some ''sb'') ''t''
            (demo_three\<lparr>rooms_banned := [demo_room \<mapsto> {uid bob}]\<rparr>)) = Rejected 4003"
    using close_codes_by_cause [of demo_env 7 demo_room "''t''" demo_three "''nobody''" alice]
      close_codes_by_cause [of demo_env 7 "''room-1''" "''t''" demo_three "''sa''" alice]
      close_codes_by_cause [of demo_env 7 demo_room "''t''"
        "demo_three\<lparr>rooms_deleted := {demo_room}\<rparr>" "''sa''" alice]
      close_codes_by_cause [of demo_env 7 demo_room "''t''"
        "demo_three\<lparr>rooms_banned := [demo_room \<mapsto> {uid bob}]\<rparr>" "''sb''" bob]
    by (simp add: demo_env_def demo_room_def demo_three_def init_state_def banned_of_def)
  have kb: "wire (projr (kick_user (Some alice) demo_room (uid bob) demo_three)) = [Closed 2 4000]
   \<and> wire (projr (ban_user (Some alice) demo_room (uid bob) demo_three)) = [Closed 2 4003]"
    using close_codes_by_cause [where caller = "Some alice" and r = demo_room and t = "uid bob"
        and s = demo_three
        and s' = "projr (kick_user (Some alice) demo_room (uid bob) demo_three)"] k
      close_codes_by_cause [where caller = "Some alice" and r = demo_room and t = "uid bob"
        and s = demo_three
        and s' = "projr (ban_user (Some alice) demo_room (uid bob) demo_three)"] b
    by (simp add: s)
  from c kb show ?thesis by simp
qed

section \<open>C10: kick and ban leave the membership as it is\<close>



section \<open>C9: payloads that are not recognized\<close>

lemma typed_msg_unrecognized:
  "\<forall>k \<in> set [''message'', ''media'', ''album'', ''location'', ''typing'', ''read''].
      map_of p ''type'' \<noteq> Some (JStr k) \<Longrightarrow> typed_msg env u ts p = None"
  by (simp add: typed_msg_def)

lemma ws_receive_history:
  "rooms_messages s r = Some h \<Longrightarrow>
   rooms_messages (snd (ws_receive env w r u ts ts' data s))
     = (rooms_messages s)(r \<mapsto> h @ [classify env u ts data])"
  by (simp add: ws_receive_eq broadcast_eq)

text \<open>
  Claim C9. A payload received on an active connection that \<open>json.loads\<close> rejects, or
  that is not a JSON object, or whose \<open>type\<close> is none of message, media, album, location,
  typing and read, becomes a plaintext \<open>message\<close> event whose \<open>text\<close> is the raw payload
  (with \<open>enc\<close> false); the event is appended to the history and fanned out like any
  other, and the receive loop goes on.
\<close>

theorem unrecognized_payload_is_plain_message:
  "json_loads env data = None
   \<or> (\<exists>j. json_loads env data = Some j \<and> (\<forall>p. j \<noteq> JObj p))
   \<or> (\<exists>p. json_loads env data = Some (JObj p)
        \<and> (\<forall>k \<in> set [''message'', ''media'', ''album'', ''location'', ''typing'', ''read''].
              map_of p ''type'' \<noteq> Some (JStr k)))
   \<Longrightarrow>
   classify env u ts data = plain_msg u ts data
   \<and> map_of (classify env u ts data) ''type'' = Some (JStr ''message'')
   \<and> map_of (classify env u ts data) ''text'' = Some (JStr data)
   \<and> map_of (classify env u ts data) ''enc'' = Some (JBool False)
   \<and> (rooms_messages s r = Some h \<longrightarrow>
        fst (ws_receive env w r u ts ts' data s) = Continue
        \<and> history_of (snd (ws_receive env w r u ts ts' data s)) r = h @ [plain_msg u ts data]
        \<and> wire (snd (ws_receive env w r u ts ts' data s))
            = wire s @ map (\<lambda>c. send_json c (plain_msg u ts data) s) (conns_of s r))"
proof -
  assume a: "json_loads env data = None
   \<or> (\<exists>j. json_loads env data = Some j \<and> (\<forall>p. j \<noteq> JObj p))
   \<or> (\<exists>p. json_loads env data = Some (JObj p)
        \<and> (\<forall>k \<in> set [''message'', ''media'', ''album'', ''location'', ''typing'', ''read''].
              map_of p ''type'' \<noteq> Some (JStr k)))"
  have c: "classify env u ts data = plain_msg u ts data"
    using a
  proof (elim disjE exE conjE)
    assume "json_loads env data = None"
    then show ?thesis by (simp add: classify_def)
  next
    fix j assume "json_loads env data = Some j" "\<forall>p. j \<noteq> JObj p"
    then show ?thesis by (cases j) (simp_all add: classify_def)
  next
    fix p assume "json_loads env data = Some (JObj p)"
      and "\<forall>k \<in> set [''message'', ''media'', ''album'', ''location'', ''typing'', ''read''].
              map_of p ''type'' \<noteq> Some (JStr k)"
    then show ?thesis
      using typed_msg_unrecognized [of p env u ts] by (simp add: classify_def)
  qed
  have r: "fst (ws_receive env w r u ts ts' data s) = Continue
        \<and> history_of (snd (ws_receive env w r u ts ts' data s)) r = h @ [plain_msg u ts data]
        \<and> wire (snd (ws_receive env w r u ts ts' data s))
            = wire s @ map (\<lambda>c. send_json c (plain_msg u ts data) s) (conns_of s r)"
    if "rooms_messages s r = Some h"
    using that c ws_receive_history [OF that, of env w u ts ts' data]
    by (simp add: ws_receive_eq broadcast_eq history_of_def conns_of_def send_json_def)
  from c r show ?thesis
    by (simp add: plain_msg_def)
qed

theorem unrecognized_payload_is_plain_message_witness:
  "classify demo_env alice ''t1'' ''hello there'' = plain_msg alice ''t1'' ''hello there''
   \<and> classify demo_env alice ''t1'' ''[1]'' = plain_msg alice ''t1'' ''[1]''
   \<and> classify demo_env alice ''t1'' ''{}'' = plain_msg alice ''t1'' ''{}''
   \<and> history_of (snd (ws_receive demo_env 1 demo_room alice ''t1'' ''t2'' ''[1]'' demo_three)) demo_room
       = [hello, [(''type'', JStr ''message''), (''text'', JStr ''[1]''), (''enc'', JBool False),
                  (''user_id'', JStr ''u-alice''), (''username'', JStr ''alice''),
                  (''avatar'', JStr []), (''ts'', JStr ''t1'')]]"
proof -
  have m: "rooms_messages demo_three demo_room = Some [hello]"
    by (simp add: demo_three_def init_state_def)
  show ?thesis
    using unrecognized_payload_is_plain_message
        [of demo_env "''hello there''" alice "''t1''" demo_three demo_room "[hello]" 1 "''t2''"]
      unrecognized_payload_is_plain_message
        [of demo_env "''[1]''" alice "''t1''" demo_three demo_room "[hello]" 1 "''t2''"]
      unrecognized_payload_is_plain_message
        [of demo_env "''{}''" alice "''t1''" demo_three demo_room "[hello]" 1 "''t2''"]
      m
    by (simp add: demo_env_def plain_msg_def stamp_def alice_def)
qed

section \<open>C2: the length of a room's history\<close>

lemma run_append: "run env (xs @ ys) s = run env ys (run env xs s)"
  by (induction xs arbitrary: s) simp_all

lemma run_receives:
  "rooms_messages s r = Some h \<Longrightarrow> \<forall>x \<in> set ops. receives_in r x \<Longrightarrow>
   \<exists>t. rooms_messages (run env ops s) r = Some (h @ t) \<and> length t = length ops"
proof (induction ops arbitrary: s h)
  case Nil
  then show ?case by simp
next
  case (Cons x xs)
  from Cons.prems(2) obtain w u ts ts' d where x: "x = Receive w r u ts ts' d"
    by (cases x) auto
  let ?m = "classify env u ts d"
  have "rooms_messages (step env x s) r = Some (h @ [?m])"
    using ws_receive_history [OF Cons.prems(1), of env w u ts ts' d] x by simp
  from Cons.IH [OF this] Cons.prems(2)
  obtain t where "rooms_messages (run env xs (step env x s)) r = Some ((h @ [?m]) @ t)"
    and "length t = length xs" by auto
  then show ?case
    by (intro exI [of _ "?m # t"]) simp
qed

text \<open>
  Claim C2 says that the history of a room stays below a fixed capacity, the oldest event
  being evicted when an event is appended at capacity. The receive loop appends with a plain
  \<open>rooms_messages[room_id].append(msg)\<close> (line 1059) and nothing in the hub ever removes an
  event from a history: no capacity bounds the history of the room after \<open>n\<close> received
  payloads.
\<close>

theorem history_unbounded_counterexample:
  "\<not> (\<exists>cap. \<forall>n. length (history_of
        (run demo_env (replicate n (Receive 1 demo_room alice ''t'' ''t'' ''hi'')) demo_three)
        demo_room) \<le> cap)"
proof
  assume "\<exists>cap. \<forall>n. length (history_of
        (run demo_env (replicate n (Receive 1 demo_room alice ''t'' ''t'' ''hi'')) demo_three)
        demo_room) \<le> cap"
  then obtain cap where c: "\<And>n. length (history_of
        (run demo_env (replicate n (Receive 1 demo_room alice ''t'' ''t'' ''hi'')) demo_three)
        demo_room) \<le> cap" by blast
  have m: "rooms_messages demo_three demo_room = Some [hello]"
    by (simp add: demo_three_def init_state_def)
  have "\<forall>x \<in> set (replicate (Suc cap) (Receive 1 demo_room alice ''t'' ''t'' ''hi'')).
          receives_in demo_room x" by simp
  from run_receives [OF m this, of demo_env]
  have "length (history_of
        (run demo_env (replicate (Suc cap) (Receive 1 demo_room alice ''t'' ''t'' ''hi'')) demo_three)
        demo_room) = Suc (Suc cap)"
    by (auto simp: history_of_def)
  with c [of "Suc cap"] show False by simp
qed

text \<open>
  Claim C2, amended. Every payload received on a connection of an existing room appends
  exactly one event at the end of the room's history and evicts nothing: the history before
  is a prefix of the history after, and after any sequence of received payloads the length
  has grown by the number of payloads. No capacity bounds it.
\<close>

theorem history_grows_by_one:
  "rooms_messages s r = Some h \<Longrightarrow>
   history_of (snd (ws_receive env w r u ts ts' data s)) r = h @ [classify env u ts data]
   \<and> length (history_of (snd (ws_receive env w r u ts ts' data s)) r) = Suc (length h)
   \<and> ((\<forall>x \<in> set ops. receives_in r x) \<longrightarrow>
        prefix h (history_of (run env ops s) r)
        \<and> length (history_of (run env ops s) r) = length h + length ops)"
proof -
  assume h: "rooms_messages s r = Some h"
  have "prefix h (history_of (run env ops s) r)
        \<and> length (history_of (run env ops s) r) = length h + length ops"
    if "\<forall>x \<in> set ops. receives_in r x"
    using run_receives [OF h that, of env] by (auto simp: history_of_def)
  then show ?thesis
    using ws_receive_history [OF h, of env w u ts ts' data] by (simp add: history_of_def)
qed

theorem history_grows_by_one_witness:
  "history_of (snd (ws_receive demo_env 1 demo_room alice ''t'' ''t'' ''hi'' demo_three)) demo_room
     = [hello, plain_msg alice ''t'' ''hi'']
   \<and> length (history_of (run demo_env
        [Receive 1 demo_room alice ''t'' ''t'' ''a'', Receive 3 demo_room alice ''t'' ''t'' ''b'',
         Receive 1 demo_room alice ''t'' ''t'' ''c''] demo_three) demo_room) = 4"
proof -
  have m: "rooms_messages demo_three demo_room = Some [hello]"
    by (simp add: demo_three_def init_state_def)
  have c: "classify demo_env alice ''t'' ''hi'' = plain_msg alice ''t'' ''hi''"
    by (simp add: classify_def demo_env_def)
  show ?thesis
    using history_grows_by_one [OF m, of demo_env 1 alice "''t''" "''t''" "''hi''"
        "[Receive 1 demo_room alice ''t'' ''t'' ''a'', Receive 3 demo_room alice ''t'' ''t'' ''b'',
         Receive 1 demo_room alice ''t'' ''t'' ''c'']"] c
    by simp
qed

section \<open>The teardown in closed form\<close>

lemma detached_socks:
  "socks_of (detached w r u cs s) r (uid u) = removeAll w (socks_of s r (uid u))"
  by (simp add: detached_def socks_of_def users_of_def split: option.splits)

lemma teardown_eq:
  "rooms_connections s r = Some cs \<Longrightarrow>
   teardown w r u ts s =
     (if removeAll w (socks_of s r (uid u)) = []
      then broadcast r (left_event u ts)
             ((detached w r u cs s)\<lparr>rooms_user_meta :=
                 (case rooms_user_meta s r of
                    None \<Rightarrow> rooms_user_meta s
                  | Some mm \<Rightarrow> (rooms_user_meta s)(r \<mapsto> mm(uid u := None)))\<rparr>)
      else (None, detached w r u cs s))"
  by (auto simp: teardown_def Let_def detached_def set_discard_def socks_of_def users_of_def
        split: option.splits)

lemma teardown_props:
  assumes "rooms_connections s r = Some cs"
  shows "fst (teardown w r u ts s) = None"
    and "socks_of (snd (teardown w r u ts s)) r (uid u) = removeAll w (socks_of s r (uid u))"
    and "wire (snd (teardown w r u ts s)) =
           wire s @ (if removeAll w (socks_of s r (uid u)) = []
                     then map (\<lambda>c. send_json c (left_event u ts) s) (removeAll w cs) else [])"
    and "conns_of (snd (teardown w r u ts s)) r =
           (if removeAll w (socks_of s r (uid u)) = []
            then filter (\<lambda>c. c \<notin> broken s) (removeAll w cs) else removeAll w cs)"
    and "meta_of (snd (teardown w r u ts s)) r (uid u) =
           (if removeAll w (socks_of s r (uid u)) = [] then None else meta_of s r (uid u))"
proof -
  note t = teardown_eq [OF assms, of w u ts]
  show "fst (teardown w r u ts s) = None"
    by (simp add: t broadcast_eq)
  show "socks_of (snd (teardown w r u ts s)) r (uid u) = removeAll w (socks_of s r (uid u))"
    using detached_socks [of w r u cs s]
    by (simp add: t broadcast_eq socks_of_def users_of_def)
  show "wire (snd (teardown w r u ts s)) =
           wire s @ (if removeAll w (socks_of s r (uid u)) = []
                     then map (\<lambda>c. send_json c (left_event u ts) s) (removeAll w cs) else [])"
    by (simp add: t broadcast_eq detached_def conns_of_def send_json_def)
  show "conns_of (snd (teardown w r u ts s)) r =
           (if removeAll w (socks_of s r (uid u)) = []
            then filter (\<lambda>c. c \<notin> broken s) (removeAll w cs) else removeAll w cs)"
    by (simp add: t broadcast_eq detached_def conns_of_def)
  show "meta_of (snd (teardown w r u ts s)) r (uid u) =
           (if removeAll w (socks_of s r (uid u)) = [] then None else meta_of s r (uid u))"
    by (simp add: t broadcast_eq detached_def meta_of_def split: option.splits)
qed

section \<open>C5: eviction after a failed send\<close>

lemma broadcast_frame:
  "rooms_user_sockets (snd (broadcast r m s)) = rooms_user_sockets s"
  "rooms_user_meta (snd (broadcast r m s)) = rooms_user_meta s"
  "rooms_messages (snd (broadcast r m s)) = rooms_messages s"
  "rooms_banned (snd (broadcast r m s)) = rooms_banned s"
  "rooms_owner (snd (broadcast r m s)) = rooms_owner s"
  "rooms_deleted (snd (broadcast r m s)) = rooms_deleted s"
  "broken (snd (broadcast r m s)) = broken s"
  "r' \<noteq> r \<Longrightarrow> rooms_connections (snd (broadcast r m s)) r' = rooms_connections s r'"
  "conns_of (snd (broadcast r m s)) r = filter (\<lambda>c. c \<notin> broken s) (conns_of s r)"
  "wire (snd (broadcast r m s)) = wire s @ map (\<lambda>c. send_json c m s) (conns_of s r)"
  "socks_of (snd (broadcast r m s)) = socks_of s"
  "users_of (snd (broadcast r m s)) = users_of s"
  "meta_of (snd (broadcast r m s)) = meta_of s"
  "history_of (snd (broadcast r m s)) = history_of s"
  "banned_of (snd (broadcast r m s)) = banned_of s"
  by (simp_all add: broadcast_eq conns_of_def socks_of_def users_of_def meta_of_def
        history_of_def banned_of_def fun_eq_iff split: option.splits)

text \<open>
  Claim C5 says that evicting a connection after a failed broadcast send changes the room
  as a graceful leave of that connection does. In the room with three connections, bob's
  only socket 2 fails: the broadcast drops it from the connection set and nothing else,
  bob keeps his socket set and his presence entry, and no \<open>left\<close> event is sent;
  the teardown of the same connection empties bob's socket set, removes his presence
  entry and broadcasts the \<open>left\<close> event.
\<close>

theorem eviction_is_not_a_leave_counterexample:
  "conns_of (snd (broadcast demo_room hello demo_three)) demo_room = [1, 3]
   \<and> socks_of (snd (broadcast demo_room hello demo_three)) demo_room (uid bob) = [2]
   \<and> meta_of (snd (broadcast demo_room hello demo_three)) demo_room (uid bob)
       = Some (''bob'', ''/uploads/b.png'')
   \<and> wire (snd (broadcast demo_room hello demo_three))
       = [Sent 1 hello, SendFailed 2 hello, Sent 3 hello]
   \<and> conns_of (snd (teardown 2 demo_room bob ''t'' demo_three)) demo_room = [1, 3]
   \<and> socks_of (snd (teardown 2 demo_room bob ''t'' demo_three)) demo_room (uid bob) = []
   \<and> meta_of (snd (teardown 2 demo_room bob ''t'' demo_three)) demo_room (uid bob) = None
   \<and> wire (snd (teardown 2 demo_room bob ''t'' demo_three))
       = [Sent 1 (left_event bob ''t''), Sent 3 (left_event bob ''t'')]"
proof -
  have c: "rooms_connections demo_three demo_room = Some [1, 2, 3]"
    by (simp add: demo_three_def init_state_def)
  have b: "broken demo_three = {2}"
    by (simp add: demo_three_def init_state_def)
  have s: "socks_of demo_three demo_room (uid bob) = [2]"
    by (simp add: demo_three_def init_state_def socks_of_def users_of_def alice_def bob_def)
  have m: "meta_of demo_three demo_room (uid bob) = Some (''bob'', ''/uploads/b.png'')"
    by (simp add: demo_three_def init_state_def meta_of_def alice_def bob_def)
  have cs: "conns_of demo_three demo_room = [1, 2, 3]"
    using c by (simp add: conns_of_def)
  have w: "wire demo_three = []"
    by (simp add: demo_three_def init_state_def)
  show ?thesis
    by (simp add: broadcast_frame teardown_props [OF c] cs b s m w send_json_def)
qed

text \<open>
  Claim C5, amended. When a connection is evicted because a broadcast send to it failed
  (in \<open>broadcast\<close> or in the loops of the receive loop), the eviction removes it from the
  room's connection set only: the per-user socket sets and the presence entries are the
  same as before, and the only events sent are the event being broadcast, no \<open>left\<close>
  event. The connection leaves its user's socket set when its own handler runs the
  teardown; if it was the user's last socket there, the teardown then removes the presence
  entry and broadcasts one \<open>left\<close> event to the connections that remain.
\<close>

theorem eviction_touches_connection_set_only:
  "rooms_user_sockets (snd (broadcast r m s)) = rooms_user_sockets s
   \<and> rooms_user_meta (snd (broadcast r m s)) = rooms_user_meta s
   \<and> rooms_messages (snd (broadcast r m s)) = rooms_messages s
   \<and> conns_of (snd (broadcast r m s)) r = filter (\<lambda>c. c \<notin> broken s) (conns_of s r)
   \<and> wire (snd (broadcast r m s)) = wire s @ map (\<lambda>c. send_json c m s) (conns_of s r)
   \<and> (rooms_messages s r \<noteq> None \<longrightarrow>
        rooms_user_sockets (snd (ws_receive env w' r u' ts ts' data s)) = rooms_user_sockets s
        \<and> rooms_user_meta (snd (ws_receive env w' r u' ts ts' data s)) = rooms_user_meta s
        \<and> wire (snd (ws_receive env w' r u' ts ts' data s))
            = wire s @ map (\<lambda>c. send_json c (classify env u' ts data) s) (conns_of s r))
   \<and> (w \<in> set (conns_of s r) \<and> w \<in> broken s \<longrightarrow>
        socks_of (snd (teardown w r u ts (snd (broadcast r m s)))) r (uid u)
          = removeAll w (socks_of s r (uid u))
        \<and> meta_of (snd (teardown w r u ts (snd (broadcast r m s)))) r (uid u)
          = (if removeAll w (socks_of s r (uid u)) = [] then None else meta_of s r (uid u))
        \<and> wire (snd (teardown w r u ts (snd (broadcast r m s))))
          = wire (snd (broadcast r m s))
            @ (if removeAll w (socks_of s r (uid u)) = []
               then map (\<lambda>c. Sent c (left_event u ts)) (filter (\<lambda>c. c \<notin> broken s) (conns_of s r))
               else []))"
proof -
  let ?s' = "snd (broadcast r m s)"
  have rcv: "rooms_user_sockets (snd (ws_receive env w' r u' ts ts' data s)) = rooms_user_sockets s
        \<and> rooms_user_meta (snd (ws_receive env w' r u' ts ts' data s)) = rooms_user_meta s
        \<and> wire (snd (ws_receive env w' r u' ts ts' data s))
            = wire s @ map (\<lambda>c. send_json c (classify env u' ts data) s) (conns_of s r)"
    if "rooms_messages s r = Some h" for h
    by (simp add: ws_receive_eq [OF that] broadcast_frame conns_of_def send_json_def)
  have td: "socks_of (snd (teardown w r u ts ?s')) r (uid u)
          = removeAll w (socks_of s r (uid u))
        \<and> meta_of (snd (teardown w r u ts ?s')) r (uid u)
          = (if removeAll w (socks_of s r (uid u)) = [] then None else meta_of s r (uid u))
        \<and> wire (snd (teardown w r u ts ?s'))
          = wire ?s'
            @ (if removeAll w (socks_of s r (uid u)) = []
               then map (\<lambda>c. Sent c (left_event u ts)) (filter (\<lambda>c. c \<notin> broken s) (conns_of s r))
               else [])"
    if w: "w \<in> set (conns_of s r)" "w \<in> broken s"
  proof -
    from w obtain cs where cs: "rooms_connections s r = Some cs"
      by (cases "rooms_connections s r") (auto simp: conns_of_def)
    let ?live = "filter (\<lambda>c. c \<notin> broken s) cs"
    have c': "rooms_connections ?s' r = Some ?live"
      using cs by (simp add: broadcast_eq)
    have so: "socks_of ?s' r (uid u) = socks_of s r (uid u)"
      by (simp add: broadcast_frame)
    have me: "meta_of ?s' r (uid u) = meta_of s r (uid u)"
      by (simp add: broadcast_frame)
    have ra: "removeAll w ?live = ?live"
      using w(2) by simp
    have sj: "map (\<lambda>c. send_json c (left_event u ts) ?s') ?live
                = map (\<lambda>c. Sent c (left_event u ts)) ?live"
      by (simp add: send_json_def broadcast_frame)
    show ?thesis
      using cs by (simp add: teardown_props [OF c'] so me ra sj conns_of_def)
  qed
  from rcv td show ?thesis
    by (auto simp: broadcast_frame)
qed

theorem eviction_touches_connection_set_only_witness:
  "rooms_user_sockets (snd (broadcast demo_room hello demo_three)) = rooms_user_sockets demo_three
   \<and> conns_of (snd (broadcast demo_room hello demo_three)) demo_room = [1, 3]
   \<and> rooms_user_sockets (snd (ws_receive demo_env 1 demo_room alice ''t'' ''t'' ''x'' demo_three))
       = rooms_user_sockets demo_three
   \<and> socks_of (snd (teardown 2 demo_room bob ''t'' (snd (broadcast demo_room hello demo_three))))
        demo_room (uid bob) = []
   \<and> wire (snd (teardown 2 demo_room bob ''t'' (snd (broadcast demo_room hello demo_three))))
       = [Sent 1 hello, SendFailed 2 hello, Sent 3 hello,
          Sent 1 (left_event bob ''t''), Sent 3 (left_event bob ''t'')]"
proof -
  have cs: "conns_of demo_three demo_room = [1, 2, 3]"
    by (simp add: demo_three_def init_state_def conns_of_def)
  have b: "broken demo_three = {2}"
    by (simp add: demo_three_def init_state_def)
  have s: "socks_of demo_three demo_room (uid bob) = [2]"
    by (simp add: demo_three_def init_state_def socks_of_def users_of_def alice_def bob_def)
  have w: "wire demo_three = []" "rooms_messages demo_three demo_room = Some [hello]"
    by (simp_all add: demo_three_def init_state_def)
  show ?thesis
    using eviction_touches_connection_set_only [of demo_room hello demo_three demo_env 1 alice
        "''t''" "''t''" "''x''" 2 bob]
    by (simp add: cs b s w send_json_def)
qed

section \<open>The join and the two exits of the receive loop, in closed form\<close>

lemma replay_props:
  "wire (snd (replay w ms s)) = wire s @ replay_trace w ms s"
  "fst (replay w ms s) = (if w \<in> broken s \<and> ms \<noteq> [] then Some SendError else None)"
  "snd (replay w ms s) = s\<lparr>wire := wire s @ replay_trace w ms s\<rparr>"
  by (simp_all add: replay_eq replay_trace_def split: list.splits)

text \<open>The state of a room after the three registrations of a join (lines 936-941).\<close>

lemma join_room_eq:
  "rooms_connections s r = Some cs \<Longrightarrow>
   join_room w r u ts s =
     (if w \<in> broken s \<and> history_of s r \<noteq> [] then Aborted SendError else Joined,
      s\<lparr>rooms_connections := (rooms_connections s)(r \<mapsto> filter (\<lambda>c. c \<notin> broken s) (set_add w cs)),
        rooms_user_sockets :=
          (rooms_user_sockets s)(r \<mapsto> (users_of s r)(uid u \<mapsto> set_add w (socks_of s r (uid u)))),
        rooms_user_meta :=
          (rooms_user_meta s)(r \<mapsto> (meta_of s r)(uid u \<mapsto> (username u, avatar_path u))),
        wire := wire s @ map (\<lambda>c. send_json c (joined_event u ts) s) (set_add w cs)
                  @ replay_trace w (history_of s r) s\<rparr>)"
proof -
  assume c: "rooms_connections s r = Some cs"
  let ?j = "joined_event u ts :: 'a event"
  let ?s3 = "s\<lparr>rooms_connections := (rooms_connections s)(r \<mapsto> set_add w cs),
        rooms_user_sockets :=
          (rooms_user_sockets s)(r \<mapsto> (users_of s r)(uid u \<mapsto> set_add w (socks_of s r (uid u)))),
        rooms_user_meta :=
          (rooms_user_meta s)(r \<mapsto> (meta_of s r)(uid u \<mapsto> (username u, avatar_path u)))\<rparr>"
  let ?s4 = "snd (broadcast r ?j ?s3)"
  have u: "users_of (s\<lparr>rooms_connections := x\<rparr>) = users_of s"
    "socks_of (s\<lparr>rooms_connections := x\<rparr>) = socks_of s" for x
    by (simp_all add: users_of_def socks_of_def fun_eq_iff)
  have m: "meta_of (s\<lparr>rooms_connections := x, rooms_user_sockets := y\<rparr>) = meta_of s" for x y
    by (simp add: meta_of_def fun_eq_iff)
  have 1: "join_room w r u ts s =
      (case broadcast r ?j ?s3 of
         (Some e, s4) \<Rightarrow> (Aborted e, s4)
       | (None, s4) \<Rightarrow>
           (case replay w (history_of s4 r) s4 of
              (Some e, s5) \<Rightarrow> (Aborted e, s5)
            | (None, s5) \<Rightarrow> (Joined, s5)))"
    using c by (simp add: join_room_def Let_def u m)
  have 2: "broadcast r ?j ?s3 = (None, ?s4)"
    by (simp add: broadcast_eq)
  have h4: "history_of ?s4 r = history_of s r"
    by (simp add: broadcast_frame history_of_def)
  have b4: "broken ?s4 = broken s"
    by (simp add: broadcast_frame)
  have t4: "replay_trace w ms ?s4 = replay_trace w ms s" for ms
    by (simp add: replay_trace_def b4)
  have 3: "replay w (history_of s r) ?s4 =
      (if w \<in> broken s \<and> history_of s r \<noteq> [] then Some SendError else None,
       ?s4\<lparr>wire := wire ?s4 @ replay_trace w (history_of s r) s\<rparr>)"
    using replay_props(2,3) [of w "history_of s r" ?s4] by (simp add: prod_eq_iff b4 t4)
  have 4: "join_room w r u ts s =
      (if w \<in> broken s \<and> history_of s r \<noteq> [] then Aborted SendError else Joined,
       ?s4\<lparr>wire := wire ?s4 @ replay_trace w (history_of s r) s\<rparr>)"
    unfolding 1 by (subst 2) (simp add: h4 3)
  have 5: "?s4\<lparr>wire := wire ?s4 @ replay_trace w (history_of s r) s\<rparr> =
      s\<lparr>rooms_connections := (rooms_connections s)(r \<mapsto> filter (\<lambda>c. c \<notin> broken s) (set_add w cs)),
        rooms_user_sockets :=
          (rooms_user_sockets s)(r \<mapsto> (users_of s r)(uid u \<mapsto> set_add w (socks_of s r (uid u)))),
        rooms_user_meta :=
          (rooms_user_meta s)(r \<mapsto> (meta_of s r)(uid u \<mapsto> (username u, avatar_path u))),
        wire := wire s @ map (\<lambda>c. send_json c ?j s) (set_add w cs)
                  @ replay_trace w (history_of s r) s\<rparr>"
    by (simp add: broadcast_eq conns_of_def send_json_def)
  show ?thesis
    unfolding 4 5 ..
qed

lemma ensure_room_conns:
  "rooms_connections (ensure_room r s) r = Some (conns_of s r)"
  by (simp add: ensure_room_def setdefault_def conns_of_def split: option.splits)

lemma ws_connect_accepted:
  assumes "sid \<noteq> []" "session_user env sid = Some u" "uuid_ok env r"
    "r \<notin> rooms_deleted s" "uid u \<notin> banned_of s r"
  shows "ws_connect env w r (Some sid) ts s = join_room w r u ts (ensure_room r s)"
  using assms by (simp add: ws_connect_def Let_def ensure_room_views)

lemma ws_connect_wire:
  assumes "sid \<noteq> []" "session_user env sid = Some u" "uuid_ok env r"
    "r \<notin> rooms_deleted s" "uid u \<notin> banned_of s r"
  shows "wire (snd (ws_connect env w r (Some sid) ts s)) =
           wire s @ map (\<lambda>c. send_json c (joined_event u ts) s) (set_add w (conns_of s r))
             @ replay_trace w (history_of s r) s"
    and "fst (ws_connect env w r (Some sid) ts s) =
           (if w \<in> broken s \<and> history_of s r \<noteq> [] then Aborted SendError else Joined)"
  by (simp_all add: ws_connect_accepted [OF assms] join_room_eq [OF ensure_room_conns]
        ensure_room_views send_json_def replay_trace_def)

lemma ws_disconnect_eq:
  assumes "rooms_connections s r = Some cs"
  shows "ws_disconnect w r v ts s = (Ended, snd (teardown w r v ts s))"
    and "ws_error w r v ts s =
           (Ended, (snd (teardown w r v ts s))\<lparr>wire := wire (snd (teardown w r v ts s)) @ [Closed w 1011]\<rparr>)"
proof -
  obtain a b where t: "teardown w r v ts s = (a, b)"
    by (cases "teardown w r v ts s")
  with teardown_props(1) [OF assms, of w v ts] have "a = None" by simp
  with t show "ws_disconnect w r v ts s = (Ended, snd (teardown w r v ts s))"
    and "ws_error w r v ts s =
           (Ended, (snd (teardown w r v ts s))\<lparr>wire := wire (snd (teardown w r v ts s)) @ [Closed w 1011]\<rparr>)"
    by (simp_all add: ws_disconnect_def ws_error_def)
qed

section \<open>C1: the joined and left announcements\<close>

text \<open>
  What the two paths do. An accepted join broadcasts the \<open>joined\<close> event to the
  connections of the room, the new one included, without a look at the user's socket set
  that it has just updated (lines 936-950). A teardown, in a room whose connection set
  exists, broadcasts the \<open>left\<close> event exactly when the user's socket set is empty once
  the connection is removed from it (lines 1071-1074 and 1084-1087).
\<close>

lemma join_announced_always_left_when_last:
  "(sid \<noteq> [] \<and> session_user env sid = Some u \<and> uuid_ok env r
      \<and> r \<notin> rooms_deleted s \<and> uid u \<notin> banned_of s r \<longrightarrow>
      wire (snd (ws_connect env w r (Some sid) ts s)) =
        wire s @ map (\<lambda>c. send_json c (joined_event u ts) s) (set_add w (conns_of s r))
          @ replay_trace w (history_of s r) s)
   \<and> (rooms_connections s r = Some cs \<longrightarrow>
        fst (ws_disconnect w r v ts s) = Ended
        \<and> socks_of (snd (ws_disconnect w r v ts s)) r (uid v) = removeAll w (socks_of s r (uid v))
        \<and> wire (snd (ws_disconnect w r v ts s)) =
            wire s @ (if removeAll w (socks_of s r (uid v)) = []
                      then map (\<lambda>c. send_json c (left_event v ts) s) (removeAll w cs) else [])
        \<and> fst (ws_error w r v ts s) = Ended
        \<and> wire (snd (ws_error w r v ts s)) =
            wire s @ (if removeAll w (socks_of s r (uid v)) = []
                      then map (\<lambda>c. send_json c (left_event v ts) s) (removeAll w cs) else [])
              @ [Closed w 1011])"
proof -
  have j: "wire (snd (ws_connect env w r (Some sid) ts s)) =
        wire s @ map (\<lambda>c. send_json c (joined_event u ts) s) (set_add w (conns_of s r))
          @ replay_trace w (history_of s r) s"
    if "sid \<noteq> []" "session_user env sid = Some u" "uuid_ok env r"
      "r \<notin> rooms_deleted s" "uid u \<notin> banned_of s r"
    using ws_connect_wire(1) [OF that] .
  have l: "fst (ws_disconnect w r v ts s) = Ended
        \<and> socks_of (snd (ws_disconnect w r v ts s)) r (uid v) = removeAll w (socks_of s r (uid v))
        \<and> wire (snd (ws_disconnect w r v ts s)) =
            wire s @ (if removeAll w (socks_of s r (uid v)) = []
                      then map (\<lambda>c. send_json c (left_event v ts) s) (removeAll w cs) else [])
        \<and> fst (ws_error w r v ts s) = Ended
        \<and> wire (snd (ws_error w r v ts s)) =
            wire s @ (if removeAll w (socks_of s r (uid v)) = []
                      then map (\<lambda>c. send_json c (left_event v ts) s) (removeAll w cs) else [])
              @ [Closed w 1011]"
    if c: "rooms_connections s r = Some cs"
    by (simp add: ws_disconnect_eq [OF c] teardown_props [OF c])
  from j l show ?thesis by blast
qed

text \<open>
  Claim C1 says that the \<open>joined\<close> event is broadcast exactly when a connection is the
  user's first live connection in the room, as the \<open>left\<close> event is when the last one is
  removed. On the empty hub bob joins the room with socket 9, then alice joins with socket
  1 and again with socket 2, then her two connections are closed one after the other.
  Bob's socket receives the announcement of alice's arrival twice and that of her
  departure once.
\<close>

theorem second_device_announced_again:
  "received 9 (wire (run demo_env
       [Connect 9 demo_room (Some ''sb'') ''t0'',
        Connect 1 demo_room (Some ''sa'') ''t1'',
        Connect 2 demo_room (Some ''sa'') ''t2'',
        Disconnect 1 demo_room alice ''t3'',
        Disconnect 2 demo_room alice ''t4''] init_state))
     = [joined_event bob ''t0'', joined_event alice ''t1'', joined_event alice ''t2'',
        left_event alice ''t4'']"
  by code_simp

section \<open>What every activation keeps: the trace only grows, tombstones stay\<close>

lemma teardown_absent:
  "rooms_connections s r = None \<Longrightarrow> teardown w r u ts s = (Some KeyError, s)"
  by (simp add: teardown_def)

lemma teardown_frame:
  "rooms_deleted (snd (teardown w r u ts s)) = rooms_deleted s"
  "prefix (wire s) (wire (snd (teardown w r u ts s)))"
proof -
  show "rooms_deleted (snd (teardown w r u ts s)) = rooms_deleted s"
  proof (cases "rooms_connections s r")
    case None
    then show ?thesis by (simp add: teardown_absent)
  next
    case (Some cs)
    then show ?thesis
      by (simp add: teardown_eq broadcast_frame detached_def)
  qed
  show "prefix (wire s) (wire (snd (teardown w r u ts s)))"
  proof (cases "rooms_connections s r")
    case None
    then show ?thesis by (simp add: teardown_absent)
  next
    case (Some cs)
    then show ?thesis
      by (simp add: teardown_props)
  qed
qed

lemma exit_frame:
  "rooms_deleted (snd (ws_disconnect w r u ts s)) = rooms_deleted s"
  "prefix (wire s) (wire (snd (ws_disconnect w r u ts s)))"
  "rooms_deleted (snd (ws_error w r u ts s)) = rooms_deleted s"
  "prefix (wire s) (wire (snd (ws_error w r u ts s)))"
proof -
  obtain a b where t: "teardown w r u ts s = (a, b)"
    by (cases "teardown w r u ts s")
  with teardown_frame [where w = w and r = r and u = u and ts = ts and s = s]
  have b: "rooms_deleted b = rooms_deleted s" "prefix (wire s) (wire b)"
    by simp_all
  from b(2) have "prefix (wire s) (wire b @ [Closed w 1011])"
    by (rule prefix_prefix)
  with t b show "rooms_deleted (snd (ws_disconnect w r u ts s)) = rooms_deleted s"
    "prefix (wire s) (wire (snd (ws_disconnect w r u ts s)))"
    "rooms_deleted (snd (ws_error w r u ts s)) = rooms_deleted s"
    "prefix (wire s) (wire (snd (ws_error w r u ts s)))"
    by (cases a; simp add: ws_disconnect_def ws_error_def)+
qed

lemma ws_receive_frame:
  "rooms_deleted (snd (ws_receive env w r u ts ts' data s)) = rooms_deleted s"
  "prefix (wire s) (wire (snd (ws_receive env w r u ts ts' data s)))"
proof -
  show "rooms_deleted (snd (ws_receive env w r u ts ts' data s)) = rooms_deleted s"
  proof (cases "rooms_messages s r")
    case None
    then show ?thesis by (simp add: ws_receive_def exit_frame)
  next
    case (Some h)
    then show ?thesis by (simp add: ws_receive_eq broadcast_frame)
  qed
  show "prefix (wire s) (wire (snd (ws_receive env w r u ts ts' data s)))"
  proof (cases "rooms_messages s r")
    case None
    then show ?thesis by (simp add: ws_receive_def exit_frame)
  next
    case (Some h)
    then show ?thesis by (simp add: ws_receive_eq broadcast_frame)
  qed
qed

lemma ws_connect_cases:
  "ws_connect env w r cookie ts s = reject w 1008 s
   \<or> (r \<in> rooms_deleted s \<and> ws_connect env w r cookie ts s = reject w 4100 (ensure_room r s))
   \<or> ws_connect env w r cookie ts s = reject w 4003 (ensure_room r s)
   \<or> (r \<notin> rooms_deleted s \<and> (\<exists>u. ws_connect env w r cookie ts s = join_room w r u ts (ensure_room r s)))"
  by (auto simp: ws_connect_def Let_def ensure_room_views split: option.splits)

lemma join_room_frame:
  "rooms_deleted (snd (join_room w r u ts (ensure_room r s))) = rooms_deleted s"
  "prefix (wire s) (wire (snd (join_room w r u ts (ensure_room r s))))"
  by (simp_all add: join_room_eq [OF ensure_room_conns] ensure_room_views)

lemma ws_connect_frame:
  "rooms_deleted (snd (ws_connect env w r cookie ts s)) = rooms_deleted s"
  "prefix (wire s) (wire (snd (ws_connect env w r cookie ts s)))"
  using ws_connect_cases [where env = env and w = w and r = r and cookie = cookie and ts = ts and s = s]
    join_room_frame [where w = w and r = r and ts = ts and s = s]
  by (auto simp: reject_def ensure_room_views)

lemma http_frame:
  "prefix (wire s) (wire (keep s (new_room caller r s)))"
  "prefix (wire s) (wire (keep s (chat_room env caller r s)))"
  "prefix (wire s) (wire (keep s (destroy_room caller r s)))"
  "prefix (wire s) (wire (keep s (kick_user caller r t s)))"
  "prefix (wire s) (wire (keep s (ban_user caller r t s)))"
  "rooms_deleted (keep s (chat_room env caller r s)) = rooms_deleted s"
  "rooms_deleted (keep s (kick_user caller r t s)) = rooms_deleted s"
  "rooms_deleted (keep s (ban_user caller r t s)) = rooms_deleted s"
  "rooms_deleted s \<subseteq> rooms_deleted (keep s (destroy_room caller r s))"
  "rooms_deleted (keep s (new_room caller r s)) = rooms_deleted s
     \<or> (rooms_deleted (keep s (new_room caller r s)) = rooms_deleted s - {r} \<and> caller \<noteq> None)"
  by (auto simp: keep_def new_room_def chat_room_def destroy_room_def kick_user_def ban_user_def
        close_all_def Let_def ensure_room_views split: option.splits)

lemma step_wire: "prefix (wire s) (wire (step env x s))"
  by (cases x) (simp_all add: http_frame ws_connect_frame ws_receive_frame exit_frame)

lemma run_wire: "prefix (wire s) (wire (run env xs s))"
proof (induction xs arbitrary: s)
  case Nil
  show ?case by simp
next
  case (Cons x xs)
  from step_wire [where s = s and env = env and x = x] Cons [of "step env x s"] show ?case
    by (auto intro: prefix_order.trans)
qed



section \<open>C6: the replay of the history at a join\<close>

text \<open>
  A join that no other handler interrupts, on a socket whose sends succeed, ends in
  \<open>Joined\<close>: after the \<open>joined\<close> announcement the joining socket is sent every event of
  the room's history, in the order of the history, and these sends go to the joining socket
  only; the history is unchanged and the socket is in the room's connection set. Without a
  schedule the join under interference is this join.
\<close>

lemma uninterrupted_join_replays_history:
  "sid \<noteq> [] \<and> session_user env sid = Some u \<and> uuid_ok env r
     \<and> r \<notin> rooms_deleted s \<and> uid u \<notin> banned_of s r \<and> w \<notin> broken s
   \<Longrightarrow>
   fst (ws_connect env w r (Some sid) ts s) = Joined
   \<and> wire (snd (ws_connect env w r (Some sid) ts s)) =
       wire s @ map (\<lambda>c. send_json c (joined_event u ts) s) (set_add w (conns_of s r))
         @ map (Sent w) (history_of s r)
   \<and> history_of (snd (ws_connect env w r (Some sid) ts s)) r = history_of s r
   \<and> w \<in> set (conns_of (snd (ws_connect env w r (Some sid) ts s)) r)"
proof -
  assume a: "sid \<noteq> [] \<and> session_user env sid = Some u \<and> uuid_ok env r
     \<and> r \<notin> rooms_deleted s \<and> uid u \<notin> banned_of s r \<and> w \<notin> broken s"
  then have p: "sid \<noteq> []" "session_user env sid = Some u" "uuid_ok env r"
    "r \<notin> rooms_deleted s" "uid u \<notin> banned_of s r" and w: "w \<notin> broken s"
    by simp_all
  let ?s' = "snd (ws_connect env w r (Some sid) ts s)"
  have f: "fst (ws_connect env w r (Some sid) ts s) = Joined"
    using ws_connect_wire(2) [OF p, of w ts] w by simp
  have t: "wire ?s' = wire s @ map (\<lambda>c. send_json c (joined_event u ts) s) (set_add w (conns_of s r))
         @ map (Sent w) (history_of s r)"
    using ws_connect_wire(1) [OF p, of w ts] w by (simp add: replay_trace_def)
  have e: "?s' = snd (join_room w r u ts (ensure_room r s))"
    by (simp add: ws_connect_accepted [OF p])
  have h: "history_of ?s' r = history_of s r"
    unfolding e
    by (simp add: join_room_eq [OF ensure_room_conns] history_of_def)
       (simp add: ensure_room_def setdefault_def split: option.splits)
  have c: "w \<in> set (conns_of ?s' r)"
    unfolding e using w
    by (simp add: join_room_eq [OF ensure_room_conns] conns_of_def ensure_room_views set_add_def)
  from f t h c show ?thesis by simp
qed

lemma join_room_live_uninterrupted: "join_room_live env w r u ts [] s = join_room w r u ts s"
  by (simp add: join_room_live_def join_room_def Let_def split: option.splits prod.splits)

text \<open>
  Claim C6 says that the joining connection is sent the history in its original order and
  that the replay is complete before the connection is delivered any event submitted after
  the join. The socket is in the room's connection set (line 936) before the replay
  (lines 952-953), and the replay awaits every send. In the room whose history is
  \<open>hello\<close>, \<open>howdy\<close>, alice joins with socket 4; while the replay awaits the send of
  \<open>hello\<close>, the receive loop of her socket 1 takes the payload \<open>later\<close>. Socket 4 receives
  the new event before \<open>howdy\<close>, and once more at the end of the replay, which by then runs
  over the longer list.
\<close>

theorem replay_overtaken_by_later_event:
  "history_of demo_talk demo_room = [hello, howdy]
   \<and> fst (join_room_live demo_env 4 demo_room alice ''t''
            [[(1, alice, ''t1'', ''t2'', ''later'')]] demo_talk) = Joined
   \<and> received 4 (wire (snd (join_room_live demo_env 4 demo_room alice ''t''
            [[(1, alice, ''t1'', ''t2'', ''later'')]] demo_talk)))
       = [joined_event alice ''t'', hello, plain_msg alice ''t1'' ''later'', howdy,
          plain_msg alice ''t1'' ''later'']
   \<and> received 4 (wire (snd (join_room_live demo_env 4 demo_room alice ''t'' [] demo_talk)))
       = [joined_event alice ''t'', hello, howdy]"
  by code_simp

section \<open>C3: tombstoned rooms\<close>





end
